theory Spec2Isabelle
  imports Main "HOL-Library.Char_ord"
begin

section \<open>Python values, exceptions and the outside world\<close>

text \<open>
  A Python exception is a value: its class and its message. Every function of the source
  that can raise returns \<open>py_error + 'a\<close>, with \<open>Inl\<close> for the exception, and every
  \<^verbatim>\<open>try ... except Exception\<close> of the source is a case distinction on that sum.
\<close>

datatype py_error =
    Exception string
  | ConnectionError string
  | TimeoutError string
  | ResponseError string
  | TypeError string
  | JSONDecodeError string
  | ValueError string
  | HTTPException nat string

fun str_exc :: "py_error \<Rightarrow> string" where
  "str_exc (Exception m) = m"
| "str_exc (ConnectionError m) = m"
| "str_exc (TimeoutError m) = m"
| "str_exc (ResponseError m) = m"
| "str_exc (TypeError m) = m"
| "str_exc (JSONDecodeError m) = m"
| "str_exc (ValueError m) = m"
| "str_exc (HTTPException code detail) = detail"

text \<open>
  The commands the cache layer sends to the Redis server, and the calls the write path makes
  to its other collaborators. The world keeps a trace of them, oldest first, so that the
  order of the calls and the absence of a call can be stated. The log lines of cache.py
  change neither what its functions return nor what they store, and are not traced; the
  warning of the write path is.
\<close>

datatype redis_cmd =
    PING
  | GET string
  | SETEX string int string
  | DEL "string list"
  | KEYS string

text \<open>
  A row of \<^verbatim>\<open>session_memories\<close> as \<^verbatim>\<open>save_memory\<close> builds it. The key
  \<^verbatim>\<open>"embedding"\<close> is only present when an embedding was given. \<^verbatim>\<open>processed_text\<close> holds
  whatever the caller passed, which after \<^verbatim>\<open>asyncio.gather(..., return_exceptions=True)\<close>
  is either a string or an exception object. The constant field \<^verbatim>\<open>"metadata": {}\<close> is
  left out.
\<close>

record 'j memory_data =
  d_session_id :: string
  d_user_id :: string
  d_original_text :: string
  d_processed_text :: "py_error + string"
  d_source :: "string option"
  d_embedding :: "'j option"

record 'j memory_row =
  r_id :: string
  r_session_id :: string
  r_user_id :: string
  r_original_text :: string
  r_processed_text :: string
  r_source :: "string option"
  r_embedding :: "'j option"

datatype log_level = DEBUG | INFO | WARNING | ERROR

datatype 'j io_event =
    Redis redis_cmd
  | ClaudeCall string
  | EmbedCall string
  | DbInsert "'j memory_data"
  | Log log_level string

text \<open>
  The world outside the process: the Redis server (its entries with the instant at which
  each expires, and its clock in seconds), the \<^verbatim>\<open>session_memories\<close> table, and for both
  servers a script of what the next commands will meet: \<open>Some e\<close> when the command raises
  \<open>e\<close> (connection refused, timeout), \<open>None\<close> when it is answered. An exhausted script
  means a healthy server.
\<close>

record 'j world =
  entries :: "(string \<times> string \<times> nat) list"
  clock :: nat
  redis_faults :: "py_error option list"
  rows :: "'j memory_row list"
  db_faults :: "py_error option list"
  trace :: "'j io_event list"

definition advance_clock :: "nat \<Rightarrow> 'j world \<Rightarrow> 'j world" where
  "advance_clock d w = w\<lparr>clock := clock w + d\<rparr>"

section \<open>The Redis server\<close>

subsection \<open>Glob patterns of KEYS\<close>

text \<open>
  Redis matches the pattern of \<^verbatim>\<open>KEYS\<close> glob-style: \<^verbatim>\<open>*\<close> stands for any run of
  characters, \<^verbatim>\<open>?\<close> for one character, \<^verbatim>\<open>[...]\<close> for a class of characters (with
  \<^verbatim>\<open>^\<close> for its complement and \<^verbatim>\<open>a-b\<close> for a range), and a backslash makes the next
  character literal.
\<close>

abbreviation backslash :: char where
  "backslash \<equiv> CHR 0x5C"

fun bracket_items :: "string \<Rightarrow> char \<Rightarrow> bool \<Rightarrow> bool \<times> string" where
  "bracket_items [] d m = (m, [])"
| "bracket_items [c] d m = (if c = CHR '']'' then (m, []) else (m \<or> c = d, []))"
| "bracket_items (c # e # p) d m =
     (if c = backslash then bracket_items p d (m \<or> e = d)
      else if c = CHR '']'' then (m, e # p)
      else if e = CHR ''-'' then
        (case p of
           [] \<Rightarrow> bracket_items (e # p) d (m \<or> c = d)
         | hi # p' \<Rightarrow> bracket_items p' d (m \<or> (min c hi \<le> d \<and> d \<le> max c hi)))
      else bracket_items (e # p) d (m \<or> c = d))"

definition bracket :: "string \<Rightarrow> char \<Rightarrow> bool \<times> string" where
  "bracket p d =
     (case p of
        [] \<Rightarrow> (False, [])
      | c # p' \<Rightarrow>
          if c = CHR ''^''
          then (case bracket_items p' d False of (m, rest) \<Rightarrow> (\<not> m, rest))
          else bracket_items p d False)"

fun redis_glob :: "string \<Rightarrow> string \<Rightarrow> bool" where
  "redis_glob [] s = (s = [])"
| "redis_glob (c # p) [] = (c = CHR ''*'' \<and> redis_glob p [])"
| "redis_glob (c # p) (d # s) =
     (if c = CHR ''*'' then redis_glob p (d # s) \<or> redis_glob (c # p) s
      else if c = CHR ''?'' then redis_glob p s
      else if c = CHR ''['' then
        (case bracket p d of (ok, rest) \<Rightarrow> ok \<and> redis_glob rest s)
      else if c = backslash then
        (case p of [] \<Rightarrow> c = d \<and> redis_glob [] s | e # p' \<Rightarrow> e = d \<and> redis_glob p' s)
      else c = d \<and> redis_glob p s)"

subsection \<open>Commands\<close>

text \<open>What the server holds under a key at its present clock: an expired entry is gone.\<close>

definition redis_lookup :: "'j world \<Rightarrow> string \<Rightarrow> string option" where
  "redis_lookup w k =
     (case map_of (entries w) k of
        None \<Rightarrow> None
      | Some (v, expires) \<Rightarrow> if clock w < expires then Some v else None)"

text \<open>
  Sending a command records it in the trace and consumes one step of the fault script.
\<close>

definition redis_send :: "redis_cmd \<Rightarrow> 'j world \<Rightarrow> py_error option \<times> 'j world" where
  "redis_send cmd w =
     (case redis_faults w of
        [] \<Rightarrow> (None, w\<lparr>trace := trace w @ [Redis cmd]\<rparr>)
      | f # fs \<Rightarrow> (f, w\<lparr>redis_faults := fs, trace := trace w @ [Redis cmd]\<rparr>))"

definition redis_ping :: "'j world \<Rightarrow> (py_error + bool) \<times> 'j world" where
  "redis_ping w =
     (case redis_send PING w of
        (Some e, w') \<Rightarrow> (Inl e, w')
      | (None, w') \<Rightarrow> (Inr True, w'))"

definition redis_get :: "string \<Rightarrow> 'j world \<Rightarrow> (py_error + string option) \<times> 'j world" where
  "redis_get k w =
     (case redis_send (GET k) w of
        (Some e, w') \<Rightarrow> (Inl e, w')
      | (None, w') \<Rightarrow> (Inr (redis_lookup w' k), w'))"

text \<open>\<^verbatim>\<open>SETEX key seconds value\<close>: the server refuses a time to live that is not positive.\<close>

definition redis_setex :: "string \<Rightarrow> int \<Rightarrow> string \<Rightarrow> 'j world \<Rightarrow> (py_error + bool) \<times> 'j world" where
  "redis_setex k ttl v w =
     (case redis_send (SETEX k ttl v) w of
        (Some e, w') \<Rightarrow> (Inl e, w')
      | (None, w') \<Rightarrow>
          if ttl \<le> 0 then (Inl (ResponseError ''invalid expire time in 'setex' command''), w')
          else (Inr True,
                w'\<lparr>entries := (k, v, clock w' + nat ttl) # filter (\<lambda>p. fst p \<noteq> k) (entries w')\<rparr>))"

definition redis_delete :: "string list \<Rightarrow> 'j world \<Rightarrow> (py_error + nat) \<times> 'j world" where
  "redis_delete ks w =
     (case redis_send (DEL ks) w of
        (Some e, w') \<Rightarrow> (Inl e, w')
      | (None, w') \<Rightarrow>
          (Inr (length (filter (\<lambda>k. redis_lookup w' k \<noteq> None) (remdups ks))),
           w'\<lparr>entries := filter (\<lambda>p. fst p \<notin> set ks) (entries w')\<rparr>))"

definition redis_keys :: "string \<Rightarrow> 'j world \<Rightarrow> (py_error + string list) \<times> 'j world" where
  "redis_keys pat w =
     (case redis_send (KEYS pat) w of
        (Some e, w') \<Rightarrow> (Inl e, w')
      | (None, w') \<Rightarrow>
          (Inr (filter (\<lambda>k. redis_lookup w' k \<noteq> None \<and> redis_glob pat k)
                  (remdups (map fst (entries w')))), w'))"

section \<open>cache.py\<close>

subsection \<open>RedisCache\<close>

datatype redis_client = RedisClient string nat nat

record RedisCache =
  client :: "redis_client option"
  enabled :: bool

text \<open>
  \<^verbatim>\<open>RedisCache.__init__\<close>: build the client, ping the server once; any exception leaves
  the cache disabled for the lifetime of the object.
\<close>

definition RedisCache_init :: "string \<Rightarrow> nat \<Rightarrow> nat \<Rightarrow> 'j world \<Rightarrow> RedisCache \<times> 'j world" where
  "RedisCache_init host port db w =
     (case redis_ping w of
        (Inl e, w') \<Rightarrow> (\<lparr>client = None, enabled = False\<rparr>, w')
      | (Inr pong, w') \<Rightarrow> (\<lparr>client = Some (RedisClient host port db), enabled = True\<rparr>, w'))"

text \<open>
  The four operations return at once when the cache is disabled or has no client, and turn any
  exception of the command into \<^verbatim>\<open>None\<close> or \<^verbatim>\<open>False\<close>. \<^verbatim>\<open>get\<close> tests the truth of
  the bytes it received, so an empty value counts as a miss. Values are the texts the
  application stored, for which \<^verbatim>\<open>value.decode('utf-8')\<close> gives back the text.
\<close>

definition RedisCache_get :: "RedisCache \<Rightarrow> string \<Rightarrow> 'j world \<Rightarrow> (py_error + string option) \<times> 'j world" where
  "RedisCache_get self key w =
     (if \<not> (enabled self \<and> client self \<noteq> None) then (Inr None, w)
      else case redis_get key w of
             (Inl e, w') \<Rightarrow> (Inr None, w')
           | (Inr None, w') \<Rightarrow> (Inr None, w')
           | (Inr (Some v), w') \<Rightarrow> if v \<noteq> [] then (Inr (Some v), w') else (Inr None, w'))"

definition RedisCache_set :: "RedisCache \<Rightarrow> string \<Rightarrow> string \<Rightarrow> int \<Rightarrow> 'j world \<Rightarrow> (py_error + bool) \<times> 'j world" where
  "RedisCache_set self key v ttl_seconds w =
     (if \<not> (enabled self \<and> client self \<noteq> None) then (Inr False, w)
      else case redis_setex key ttl_seconds v w of
             (Inl e, w') \<Rightarrow> (Inr False, w')
           | (Inr ok, w') \<Rightarrow> (Inr True, w'))"

text \<open>The default of the parameter \<^verbatim>\<open>ttl_seconds\<close> of \<^verbatim>\<open>RedisCache.set\<close>.\<close>

definition default_ttl_seconds :: int where
  "default_ttl_seconds = 3600"

definition RedisCache_delete :: "RedisCache \<Rightarrow> string \<Rightarrow> 'j world \<Rightarrow> (py_error + bool) \<times> 'j world" where
  "RedisCache_delete self key w =
     (if \<not> (enabled self \<and> client self \<noteq> None) then (Inr False, w)
      else case redis_delete [key] w of
             (Inl e, w') \<Rightarrow> (Inr False, w')
           | (Inr n, w') \<Rightarrow> (Inr True, w'))"

definition RedisCache_delete_pattern :: "RedisCache \<Rightarrow> string \<Rightarrow> 'j world \<Rightarrow> (py_error + bool) \<times> 'j world" where
  "RedisCache_delete_pattern self pat w =
     (if \<not> (enabled self \<and> client self \<noteq> None) then (Inr False, w)
      else case redis_keys pat w of
             (Inl e, w') \<Rightarrow> (Inr False, w')
           | (Inr ks, w') \<Rightarrow>
               if ks \<noteq> [] then
                 (case redis_delete ks w' of
                    (Inl e, w'') \<Rightarrow> (Inr False, w'')
                  | (Inr n, w'') \<Rightarrow> (Inr True, w''))
               else (Inr True, w'))"

subsection \<open>Libraries and providers\<close>

text \<open>
  What the source takes from libraries and remote providers, as parameters: the SHA-256 hex
  digest of \<^verbatim>\<open>hashlib\<close>, \<^verbatim>\<open>json.dumps\<close> and \<^verbatim>\<open>json.loads\<close> on the Python values
  \<open>'j\<close> that are cached (session data, lists of memories, embedding vectors), the truth
  value Python gives such a value in \<^verbatim>\<open>if v:\<close>, the answers of the summarization and
  embedding providers to a request, and the identifier the datastore gives the n-th row.
\<close>

record 'j env =
  sha256hex :: "string \<Rightarrow> string"
  new_id :: "nat \<Rightarrow> string"
  json_dumps :: "'j \<Rightarrow> string"
  json_loads :: "string \<Rightarrow> py_error + 'j"
  truthy :: "'j \<Rightarrow> bool"
  claude_api :: "string \<Rightarrow> py_error + string"
  embed_api :: "string \<Rightarrow> py_error + 'j"

subsection \<open>SessionCache\<close>

text \<open>
  \<^verbatim>\<open>SessionCache\<close> and \<^verbatim>\<open>EmbeddingCache\<close> hold nothing but the reference
  \<^verbatim>\<open>self.cache\<close> to the shared \<^verbatim>\<open>RedisCache\<close>, which is their first argument here.
\<close>

definition session_key :: "string \<Rightarrow> string" where
  "session_key session_id = ''session:'' @ session_id"

definition session_memories_key :: "string \<Rightarrow> string" where
  "session_memories_key session_id = ''session:'' @ session_id @ '':memories''"

definition session_description_key :: "string \<Rightarrow> string" where
  "session_description_key session_id = ''session:'' @ session_id @ '':description''"

definition warm_session_cache ::
  "'j env \<Rightarrow> RedisCache \<Rightarrow> string \<Rightarrow> 'j \<Rightarrow> 'j \<Rightarrow> 'j world \<Rightarrow> (py_error + unit) \<times> 'j world" where
  "warm_session_cache E cache session_id session_data memories w =
     (case RedisCache_set cache (session_key session_id) (json_dumps E session_data) 3600 w of
        (Inl e, w') \<Rightarrow> (Inr (), w')
      | (Inr ok, w') \<Rightarrow>
          (case RedisCache_set cache (session_memories_key session_id)
                  (json_dumps E memories) 600 w' of
             (Inl e, w'') \<Rightarrow> (Inr (), w'')
           | (Inr ok', w'') \<Rightarrow> (Inr (), w'')))"

text \<open>
  The three JSON readers share one shape: read the key, and parse what was found unless it
  is \<^verbatim>\<open>None\<close> or empty; any exception gives \<^verbatim>\<open>None\<close>.
\<close>

definition get_session ::
  "'j env \<Rightarrow> RedisCache \<Rightarrow> string \<Rightarrow> 'j world \<Rightarrow> (py_error + 'j option) \<times> 'j world" where
  "get_session E cache session_id w =
     (case RedisCache_get cache (session_key session_id) w of
        (Inl e, w') \<Rightarrow> (Inr None, w')
      | (Inr None, w') \<Rightarrow> (Inr None, w')
      | (Inr (Some cached), w') \<Rightarrow>
          if cached \<noteq> [] then
            (case json_loads E cached of
               Inl e \<Rightarrow> (Inr None, w')
             | Inr v \<Rightarrow> (Inr (Some v), w'))
          else (Inr None, w'))"

definition get_session_memories ::
  "'j env \<Rightarrow> RedisCache \<Rightarrow> string \<Rightarrow> 'j world \<Rightarrow> (py_error + 'j option) \<times> 'j world" where
  "get_session_memories E cache session_id w =
     (case RedisCache_get cache (session_memories_key session_id) w of
        (Inl e, w') \<Rightarrow> (Inr None, w')
      | (Inr None, w') \<Rightarrow> (Inr None, w')
      | (Inr (Some cached), w') \<Rightarrow>
          if cached \<noteq> [] then
            (case json_loads E cached of
               Inl e \<Rightarrow> (Inr None, w')
             | Inr v \<Rightarrow> (Inr (Some v), w'))
          else (Inr None, w'))"

definition invalidate_session_memories ::
  "RedisCache \<Rightarrow> string \<Rightarrow> 'j world \<Rightarrow> (py_error + unit) \<times> 'j world" where
  "invalidate_session_memories cache session_id w =
     (case RedisCache_delete cache (session_memories_key session_id) w of
        (Inl e, w') \<Rightarrow> (Inl e, w')
      | (Inr ok, w') \<Rightarrow> (Inr (), w'))"

definition invalidate_session ::
  "RedisCache \<Rightarrow> string \<Rightarrow> 'j world \<Rightarrow> (py_error + unit) \<times> 'j world" where
  "invalidate_session cache session_id w =
     (case RedisCache_delete_pattern cache (''session:'' @ session_id @ '':*'') w of
        (Inl e, w') \<Rightarrow> (Inl e, w')
      | (Inr ok, w') \<Rightarrow>
          (case RedisCache_delete cache (session_key session_id) w' of
             (Inl e, w'') \<Rightarrow> (Inl e, w'')
           | (Inr ok', w'') \<Rightarrow> (Inr (), w'')))"

definition get_session_description ::
  "RedisCache \<Rightarrow> string \<Rightarrow> 'j world \<Rightarrow> (py_error + string option) \<times> 'j world" where
  "get_session_description cache session_id w =
     (case RedisCache_get cache (session_description_key session_id) w of
        (Inl e, w') \<Rightarrow> (Inr None, w')
      | (Inr None, w') \<Rightarrow> (Inr None, w')
      | (Inr (Some cached), w') \<Rightarrow>
          if cached \<noteq> [] then (Inr (Some cached), w') else (Inr None, w'))"

text \<open>
  \<^verbatim>\<open>set_session_description\<close> calls \<^verbatim>\<open>self.cache.set(key, description)\<close> with no
  third argument, so the default \<^verbatim>\<open>ttl_seconds\<close> of \<^verbatim>\<open>RedisCache.set\<close> applies.
\<close>

definition set_session_description ::
  "RedisCache \<Rightarrow> string \<Rightarrow> string \<Rightarrow> 'j world \<Rightarrow> (py_error + unit) \<times> 'j world" where
  "set_session_description cache session_id description w =
     (case RedisCache_set cache (session_description_key session_id) description
             default_ttl_seconds w of
        (Inl e, w') \<Rightarrow> (Inr (), w')
      | (Inr ok, w') \<Rightarrow> (Inr (), w'))"

definition invalidate_session_description ::
  "RedisCache \<Rightarrow> string \<Rightarrow> 'j world \<Rightarrow> (py_error + unit) \<times> 'j world" where
  "invalidate_session_description cache session_id w =
     (case RedisCache_delete cache (session_description_key session_id) w of
        (Inl e, w') \<Rightarrow> (Inl e, w')
      | (Inr ok, w') \<Rightarrow> (Inr (), w'))"

subsection \<open>EmbeddingCache\<close>

definition embedding_key :: "'j env \<Rightarrow> string \<Rightarrow> string" where
  "embedding_key E text = ''embed:v1:'' @ sha256hex E text"

definition get_embedding ::
  "'j env \<Rightarrow> RedisCache \<Rightarrow> string \<Rightarrow> 'j world \<Rightarrow> (py_error + 'j option) \<times> 'j world" where
  "get_embedding E cache text w =
     (case RedisCache_get cache (embedding_key E text) w of
        (Inl e, w') \<Rightarrow> (Inr None, w')
      | (Inr None, w') \<Rightarrow> (Inr None, w')
      | (Inr (Some cached), w') \<Rightarrow>
          if cached \<noteq> [] then
            (case json_loads E cached of
               Inl e \<Rightarrow> (Inr None, w')
             | Inr v \<Rightarrow> (Inr (Some v), w'))
          else (Inr None, w'))"

definition save_embedding ::
  "'j env \<Rightarrow> RedisCache \<Rightarrow> string \<Rightarrow> 'j \<Rightarrow> int \<Rightarrow> 'j world \<Rightarrow> (py_error + unit) \<times> 'j world" where
  "save_embedding E cache text embedding ttl_seconds w =
     (case RedisCache_set cache (embedding_key E text) (json_dumps E embedding) ttl_seconds w of
        (Inl e, w') \<Rightarrow> (Inr (), w')
      | (Inr ok, w') \<Rightarrow> (Inr (), w'))"

definition embedding_ttl_seconds :: int where
  "embedding_ttl_seconds = 86400"

text \<open>The truth value of an \<^verbatim>\<open>Optional\<close> value: \<^verbatim>\<open>None\<close> is false.\<close>

definition py_bool :: "'j env \<Rightarrow> 'j option \<Rightarrow> bool" where
  "py_bool E v = (case v of None \<Rightarrow> False | Some x \<Rightarrow> truthy E x)"

section \<open>embeddings.py\<close>

definition max_chars :: nat where
  "max_chars = 30000"

definition call_embed_api :: "'j env \<Rightarrow> string \<Rightarrow> 'j world \<Rightarrow> (py_error + 'j) \<times> 'j world" where
  "call_embed_api E text w = (embed_api E text, w\<lparr>trace := trace w @ [EmbedCall text]\<rparr>)"

definition embedding_failure :: "py_error \<Rightarrow> py_error" where
  "embedding_failure e = Exception (''Failed to generate embedding: '' @ str_exc e)"

text \<open>
  The part of \<^verbatim>\<open>create_embedding\<close> after the cache lookup: call the provider, save the
  vector in the cache when the service has one, return the vector.
\<close>

definition generate_embedding ::
  "'j env \<Rightarrow> RedisCache option \<Rightarrow> string \<Rightarrow> 'j world \<Rightarrow> (py_error + 'j) \<times> 'j world" where
  "generate_embedding E cache text w =
     (case call_embed_api E text w of
        (Inl e, w1) \<Rightarrow> (Inl (embedding_failure e), w1)
      | (Inr embedding, w1) \<Rightarrow>
          (case cache of
             None \<Rightarrow> (Inr embedding, w1)
           | Some c \<Rightarrow>
               (case save_embedding E c text embedding embedding_ttl_seconds w1 of
                  (Inl e, w2) \<Rightarrow> (Inl (embedding_failure e), w2)
                | (Inr u, w2) \<Rightarrow> (Inr embedding, w2))))"

definition create_embedding ::
  "'j env \<Rightarrow> RedisCache option \<Rightarrow> string \<Rightarrow> 'j world \<Rightarrow> (py_error + 'j) \<times> 'j world" where
  "create_embedding E cache text0 w =
     (let text = (if length text0 > max_chars then take max_chars text0 else text0) in
      case cache of
        None \<Rightarrow> generate_embedding E cache text w
      | Some c \<Rightarrow>
          (case get_embedding E c text w of
             (Inl e, w1) \<Rightarrow> (Inl (embedding_failure e), w1)
           | (Inr cached_embedding, w1) \<Rightarrow>
               if py_bool E cached_embedding
               then (case cached_embedding of
                       None \<Rightarrow> generate_embedding E cache text w1
                     | Some v \<Rightarrow> (Inr v, w1))
               else generate_embedding E cache text w1))"

section \<open>claude.py\<close>

text \<open>
  \<^verbatim>\<open>str.strip()\<close> removes the white space of Python at both ends (the code points below
  256 that \<^verbatim>\<open>str.isspace\<close> accepts).
\<close>

definition py_isspace :: "char \<Rightarrow> bool" where
  "py_isspace c = (of_char c \<in> {9, 10, 11, 12, 13, 28, 29, 30, 31, 32, 133, 160 :: nat})"

definition strip :: "string \<Rightarrow> string" where
  "strip s = rev (dropWhile py_isspace (rev (dropWhile py_isspace s)))"

text \<open>
  \<^verbatim>\<open>process_text\<close> puts the text into a fixed prompt and sends it; \<open>claude_api\<close> is the
  provider's answer to the prompt built around a text.
\<close>

definition process_text :: "'j env \<Rightarrow> string \<Rightarrow> 'j world \<Rightarrow> (py_error + string) \<times> 'j world" where
  "process_text E text w =
     (case claude_api E text of
        Inl e \<Rightarrow> (Inl (Exception (''Claude API error: '' @ str_exc e)),
                  w\<lparr>trace := trace w @ [ClaudeCall text]\<rparr>)
      | Inr answer \<Rightarrow> (Inr (strip answer), w\<lparr>trace := trace w @ [ClaudeCall text]\<rparr>))"

section \<open>sessions.py\<close>

text \<open>
  The datastore client. It serialises the row to JSON before it sends anything, and
  \<^verbatim>\<open>json.dumps\<close> raises \<^verbatim>\<open>TypeError\<close> on a field that holds an exception object;
  otherwise the server either fails (the next step of its fault script) or appends the row
  and returns it with its new identifier.
\<close>

definition db_insert ::
  "'j env \<Rightarrow> 'j memory_data \<Rightarrow> 'j world \<Rightarrow> (py_error + 'j memory_row list) \<times> 'j world" where
  "db_insert E data w =
     (case d_processed_text data of
        Inl exc \<Rightarrow>
          (Inl (TypeError ''Object of type Exception is not JSON serializable''),
           w\<lparr>trace := trace w @ [DbInsert data]\<rparr>)
      | Inr processed \<Rightarrow>
          (case (case db_faults w of [] \<Rightarrow> None | f # fs \<Rightarrow> f) of
             Some e \<Rightarrow>
               (Inl e, w\<lparr>db_faults := tl (db_faults w), trace := trace w @ [DbInsert data]\<rparr>)
           | None \<Rightarrow>
               (Inr [\<lparr>r_id = new_id E (length (rows w)),
                       r_session_id = d_session_id data,
                       r_user_id = d_user_id data,
                       r_original_text = d_original_text data,
                       r_processed_text = processed,
                       r_source = d_source data,
                       r_embedding = d_embedding data\<rparr>],
                w\<lparr>rows := rows w @
                       [\<lparr>r_id = new_id E (length (rows w)),
                         r_session_id = d_session_id data,
                         r_user_id = d_user_id data,
                         r_original_text = d_original_text data,
                         r_processed_text = processed,
                         r_source = d_source data,
                         r_embedding = d_embedding data\<rparr>],
                   db_faults := tl (db_faults w),
                   trace := trace w @ [DbInsert data]\<rparr>)))"

definition save_memory ::
  "'j env \<Rightarrow> string \<Rightarrow> string \<Rightarrow> string \<Rightarrow> py_error + string \<Rightarrow> string option \<Rightarrow> 'j option \<Rightarrow>
     'j world \<Rightarrow> (py_error + 'j memory_row option) \<times> 'j world" where
  "save_memory E session_id user_id original_text processed_text source embedding w =
     (case db_insert E
             \<lparr>d_session_id = session_id,
              d_user_id = user_id,
              d_original_text = original_text,
              d_processed_text = processed_text,
              d_source = source,
              d_embedding = (if py_bool E embedding then embedding else None)\<rparr> w of
        (Inl e, w1) \<Rightarrow> (Inl (Exception (''Failed to save memory: '' @ str_exc e)), w1)
      | (Inr response_data, w1) \<Rightarrow>
          (case response_data of
             [] \<Rightarrow> (Inr None, w1)
           | r # rest \<Rightarrow> (Inr (Some r), w1)))"

section \<open>routes/memories.py\<close>

record SmartCopyRequest =
  rq_text :: string
  rq_session_id :: string
  rq_user_id :: string
  rq_source :: "string option"

record SmartCopyResponse =
  rs_status :: string
  rs_memory_id :: string
  rs_original_length :: nat
  rs_processed_length :: nat
  rs_processed_text :: string

definition smart_copy_failed :: "py_error \<Rightarrow> py_error" where
  "smart_copy_failed e = HTTPException 500 (''Smart copy failed: '' @ str_exc e)"

text \<open>
  The two coroutines handed to \<^verbatim>\<open>asyncio.gather\<close> contain no \<^verbatim>\<open>await\<close>, so each runs to
  its end in the order of the arguments. With \<^verbatim>\<open>return_exceptions=True\<close> an exception of
  either is a result, not a raise: \<^verbatim>\<open>results[0]\<close> goes on as \<^verbatim>\<open>processed_text\<close> whatever
  it is, and \<^verbatim>\<open>results[1]\<close> becomes \<^verbatim>\<open>None\<close> with a warning when it is an exception.
\<close>

definition gather_results ::
  "'j env \<Rightarrow> RedisCache option \<Rightarrow> string \<Rightarrow> 'j world \<Rightarrow>
     ((py_error + string) \<times> (py_error + 'j)) \<times> 'j world" where
  "gather_results E embedding_cache txt w =
     (case process_text E txt w of
        (r0, w1) \<Rightarrow>
          (case create_embedding E embedding_cache txt w1 of
             (r1, w2) \<Rightarrow> ((r0, r1), w2)))"

definition log_embedding_failure :: "py_error + 'j \<Rightarrow> 'j world \<Rightarrow> 'j world" where
  "log_embedding_failure r1 w =
     (case r1 of
        Inl e \<Rightarrow> w\<lparr>trace := trace w @ [Log WARNING (''Failed to generate embedding: '' @ str_exc e)]\<rparr>
      | Inr v \<Rightarrow> w)"

definition smart_copy ::
  "'j env \<Rightarrow> RedisCache \<Rightarrow> RedisCache option \<Rightarrow> SmartCopyRequest \<Rightarrow> 'j world \<Rightarrow>
     (py_error + SmartCopyResponse) \<times> 'j world" where
  "smart_copy E session_cache embedding_cache request w =
     (case gather_results E embedding_cache (rq_text request) w of
        ((results0, results1), w2) \<Rightarrow>
          (case save_memory E (rq_session_id request) (rq_user_id request) (rq_text request) results0
                  (rq_source request) (case results1 of Inl e \<Rightarrow> None | Inr v \<Rightarrow> Some v)
                  (log_embedding_failure results1 w2) of
             (Inl e, w4) \<Rightarrow> (Inl (smart_copy_failed e), w4)
           | (Inr None, w4) \<Rightarrow> (Inl (HTTPException 500 ''Failed to save memory''), w4)
           | (Inr (Some memory), w4) \<Rightarrow>
               (case invalidate_session_memories session_cache (rq_session_id request) w4 of
                  (Inl e, w5) \<Rightarrow> (Inl (smart_copy_failed e), w5)
                | (Inr u, w5) \<Rightarrow>
                    (case invalidate_session_description session_cache (rq_session_id request) w5 of
                       (Inl e, w6) \<Rightarrow> (Inl (smart_copy_failed e), w6)
                     | (Inr u', w6) \<Rightarrow>
                         (case results0 of
                            Inl exc \<Rightarrow>
                              (Inl (smart_copy_failed
                                     (TypeError ''object of type 'Exception' has no len()'')), w6)
                          | Inr processed \<Rightarrow>
                              (Inr \<lparr>rs_status = ''saved'',
                                    rs_memory_id = r_id memory,
                                    rs_original_length = length (rq_text request),
                                    rs_processed_length = length processed,
                                    rs_processed_text = processed\<rparr>, w6))))))"

section \<open>task_queue.py\<close>

text \<open>
  What the function of a task can raise: an exception of class \<^verbatim>\<open>Exception\<close>, which
  \<^verbatim>\<open>except Exception\<close> catches; \<^verbatim>\<open>asyncio.CancelledError\<close>, which is a
  \<^verbatim>\<open>BaseException\<close> and is caught by its own handler only; or another
  \<^verbatim>\<open>BaseException\<close> (\<^verbatim>\<open>GeneratorExit\<close>, \<^verbatim>\<open>KeyboardInterrupt\<close>, \<^verbatim>\<open>SystemExit\<close>, a class
  of the program's own), which no handler of the worker catches: the coroutine ends with
  it.
\<close>

datatype raised = Exc py_error | CancelledError | BaseExc string

text \<open>
  A queued task is an identifier and a call \<^verbatim>\<open>task_func(*args, **kwargs)\<close>. What awaiting
  that call does is a function of the world \<open>'w\<close> it acts on: it returns or it raises;
  either way it may have changed the world.
\<close>

record 'w task =
  task_id :: string
  func :: "'w \<Rightarrow> (raised + unit) \<times> 'w"

text \<open>
  The places at which the coroutine \<^verbatim>\<open>_worker\<close> can be suspended: created and not yet
  run, waiting in \<^verbatim>\<open>wait_for(self.queue.get(), timeout=1.0)\<close>, awaiting the function of a
  task it has taken, finished.
\<close>

datatype 'w worker_pc = W_new | W_get | W_run "'w task" | W_done

record 'w worker =
  worker_id :: nat
  pc :: "'w worker_pc"
  cancel_requested :: bool

text \<open>
  The places of the coroutine \<^verbatim>\<open>stop\<close>: not called, waiting in \<^verbatim>\<open>queue.join()\<close> (with
  whether the queue has signalled that its count of unfinished tasks reached zero), waiting
  in \<^verbatim>\<open>asyncio.gather(*self.workers)\<close>, returned.
\<close>

datatype stop_pc = S_idle | S_join bool | S_gather | S_returned

datatype queue_msg =
    Starting nat
  | Stopping
  | Enqueued string
  | WorkerStarted nat
  | WorkerProcessing nat string
  | WorkerCompleted nat string
  | WorkerTaskFailed nat string py_error
  | WorkerCancelled nat
  | WorkerError nat py_error
  | WorkerStopped nat

record 'w BackgroundTaskQueue =
  queue :: "'w task list"
  unfinished_tasks :: nat
  num_workers :: nat
  workers :: "'w worker list"
  is_running :: bool
  stopping :: stop_pc
  outside :: 'w
  logged :: "(log_level \<times> queue_msg) list"

definition BackgroundTaskQueue_init :: "nat \<Rightarrow> 'w \<Rightarrow> 'w BackgroundTaskQueue" where
  "BackgroundTaskQueue_init n w =
     \<lparr>queue = [], unfinished_tasks = 0, num_workers = n, workers = [], is_running = False,
      stopping = S_idle, outside = w, logged = []\<rparr>"

definition log_msg :: "log_level \<Rightarrow> queue_msg \<Rightarrow> 'w BackgroundTaskQueue \<Rightarrow> 'w BackgroundTaskQueue" where
  "log_msg lvl m q = q\<lparr>logged := logged q @ [(lvl, m)]\<rparr>"

definition start :: "'w BackgroundTaskQueue \<Rightarrow> 'w BackgroundTaskQueue" where
  "start q =
     (if is_running q then q
      else (log_msg INFO (Starting (num_workers q)) (q\<lparr>is_running := True\<rparr>))
             \<lparr>workers := workers q @
                map (\<lambda>i. \<lparr>worker_id = i, pc = W_new, cancel_requested = False\<rparr>)
                  [0..<num_workers q]\<rparr>)"

text \<open>
  \<^verbatim>\<open>enqueue\<close>: the identifier is the one \<^verbatim>\<open>uuid.uuid4()\<close> produced. The queue has no bound,
  so \<^verbatim>\<open>put\<close> does not wait; it counts the task as unfinished.
\<close>

definition enqueue ::
  "string \<Rightarrow> ('w \<Rightarrow> (raised + unit) \<times> 'w) \<Rightarrow> 'w BackgroundTaskQueue \<Rightarrow>
     string \<times> 'w BackgroundTaskQueue" where
  "enqueue uuid task_func q =
     (uuid, log_msg DEBUG (Enqueued uuid)
              (q\<lparr>queue := queue q @ [\<lparr>task_id = uuid, func = task_func\<rparr>],
                 unfinished_tasks := unfinished_tasks q + 1\<rparr>))"

definition set_pc :: "nat \<Rightarrow> 'w worker_pc \<Rightarrow> 'w BackgroundTaskQueue \<Rightarrow> 'w BackgroundTaskQueue" where
  "set_pc i p q = q\<lparr>workers := (workers q)[i := (workers q ! i)\<lparr>pc := p\<rparr>]\<rparr>"

text \<open>The test \<^verbatim>\<open>while self.is_running\<close>: wait for the next task, or leave the loop.\<close>

definition loop_test :: "nat \<Rightarrow> 'w BackgroundTaskQueue \<Rightarrow> 'w BackgroundTaskQueue" where
  "loop_test i q =
     (if is_running q then set_pc i W_get q
      else log_msg INFO (WorkerStopped (worker_id (workers q ! i))) (set_pc i W_done q))"

text \<open>
  \<^verbatim>\<open>Queue.task_done\<close>: one unfinished task less; reaching zero wakes \<^verbatim>\<open>join\<close>. Called more
  often than \<^verbatim>\<open>put\<close> it raises \<^verbatim>\<open>ValueError\<close>, which the outer handler of the worker logs.
\<close>

definition task_done :: "nat \<Rightarrow> 'w BackgroundTaskQueue \<Rightarrow> 'w BackgroundTaskQueue" where
  "task_done i q =
     (if unfinished_tasks q = 0
      then log_msg ERROR (WorkerError (worker_id (workers q ! i))
             (ValueError ''task_done() called too many times'')) q
      else if unfinished_tasks q = 1 \<and> stopping q = S_join False
      then q\<lparr>unfinished_tasks := 0, stopping := S_join True\<rparr>
      else q\<lparr>unfinished_tasks := unfinished_tasks q - 1\<rparr>)"

definition cancelled :: "nat \<Rightarrow> 'w BackgroundTaskQueue \<Rightarrow> 'w BackgroundTaskQueue" where
  "cancelled i q =
     log_msg INFO (WorkerStopped (worker_id (workers q ! i)))
       (log_msg INFO (WorkerCancelled (worker_id (workers q ! i))) (set_pc i W_done q))"

text \<open>
  An exception that is no \<^verbatim>\<open>Exception\<close> leaves the inner \<^verbatim>\<open>try\<close> through
  \<^verbatim>\<open>finally: self.queue.task_done()\<close> and goes on to the handler that is given. When
  \<^verbatim>\<open>task_done\<close> raises there, its \<^verbatim>\<open>ValueError\<close> replaces the exception under way: the
  outer \<^verbatim>\<open>except Exception\<close> logs it and the loop goes on, a cancellation being consumed.
\<close>

definition unwind ::
  "nat \<Rightarrow> (nat \<Rightarrow> 'w BackgroundTaskQueue \<Rightarrow> 'w BackgroundTaskQueue) \<Rightarrow>
     'w BackgroundTaskQueue \<Rightarrow> 'w BackgroundTaskQueue" where
  "unwind i handler q =
     (if unfinished_tasks q = 0
      then loop_test i (task_done i
             (q\<lparr>workers := (workers q)[i := (workers q ! i)\<lparr>cancel_requested := False\<rparr>]\<rparr>))
      else handler i (task_done i q))"

text \<open>
  One run of worker \<open>i\<close> from the place where it is suspended to the next one. A pending
  cancellation is delivered as \<^verbatim>\<open>CancelledError\<close>, which is no \<^verbatim>\<open>Exception\<close> (Python 3.8
  and later): it passes the inner handler (through \<^verbatim>\<open>finally\<close> when a task was running)
  and \<^verbatim>\<open>except asyncio.CancelledError\<close> ends the loop. The same happens when the function
  of the task raises \<^verbatim>\<open>CancelledError\<close> itself. Any other \<^verbatim>\<open>BaseException\<close> of the task
  passes \<^verbatim>\<open>finally\<close> and both outer handlers and ends the coroutine without a further log
  line.
\<close>

definition worker_step :: "nat \<Rightarrow> 'w BackgroundTaskQueue \<Rightarrow> 'w BackgroundTaskQueue" where
  "worker_step i q =
     (if length (workers q) \<le> i then q
      else case pc (workers q ! i) of
        W_done \<Rightarrow> q
      | W_new \<Rightarrow>
          if cancel_requested (workers q ! i) then set_pc i W_done q
          else loop_test i (log_msg INFO (WorkerStarted (worker_id (workers q ! i))) q)
      | W_get \<Rightarrow>
          if cancel_requested (workers q ! i) then cancelled i q
          else (case queue q of
                  [] \<Rightarrow> loop_test i q
                | t # ts \<Rightarrow>
                    set_pc i (W_run t)
                      (log_msg INFO (WorkerProcessing (worker_id (workers q ! i)) (task_id t))
                         (q\<lparr>queue := ts\<rparr>)))
      | W_run t \<Rightarrow>
          if cancel_requested (workers q ! i) then unwind i cancelled q
          else (case func t (outside q) of
                  (Inr u, w') \<Rightarrow>
                    loop_test i (task_done i
                      (log_msg INFO (WorkerCompleted (worker_id (workers q ! i)) (task_id t))
                         (q\<lparr>outside := w'\<rparr>)))
                | (Inl (Exc e), w') \<Rightarrow>
                    loop_test i (task_done i
                      (log_msg ERROR (WorkerTaskFailed (worker_id (workers q ! i)) (task_id t) e)
                         (q\<lparr>outside := w'\<rparr>)))
                | (Inl CancelledError, w') \<Rightarrow> unwind i cancelled (q\<lparr>outside := w'\<rparr>)
                | (Inl (BaseExc name), w') \<Rightarrow>
                    unwind i (\<lambda>i. set_pc i W_done) (q\<lparr>outside := w'\<rparr>)))"

definition cancel_workers :: "'w BackgroundTaskQueue \<Rightarrow> 'w BackgroundTaskQueue" where
  "cancel_workers q = q\<lparr>workers := map (\<lambda>wk. wk\<lparr>cancel_requested := True\<rparr>) (workers q)\<rparr>"

definition is_done :: "'w worker \<Rightarrow> bool" where
  "is_done wk = (case pc wk of W_done \<Rightarrow> True | W_new \<Rightarrow> False | W_get \<Rightarrow> False | W_run t \<Rightarrow> False)"

text \<open>
  One run of the coroutine \<^verbatim>\<open>stop\<close>. Called on a running queue it clears
  \<^verbatim>\<open>is_running\<close> first and then awaits \<^verbatim>\<open>queue.join()\<close>, which does not suspend when no
  task is unfinished; after the join it requests the cancellation of every worker and
  awaits them all.
\<close>

definition stop_step :: "'w BackgroundTaskQueue \<Rightarrow> 'w BackgroundTaskQueue" where
  "stop_step q =
     (case stopping q of
        S_idle \<Rightarrow>
          if \<not> is_running q then q\<lparr>stopping := S_returned\<rparr>
          else if unfinished_tasks q = 0
          then (cancel_workers (log_msg INFO Stopping (q\<lparr>is_running := False\<rparr>)))
                 \<lparr>stopping := S_gather\<rparr>
          else (log_msg INFO Stopping (q\<lparr>is_running := False\<rparr>))\<lparr>stopping := S_join False\<rparr>
      | S_join woken \<Rightarrow>
          if woken then (cancel_workers q)\<lparr>stopping := S_gather\<rparr> else q
      | S_gather \<Rightarrow>
          if list_all is_done (workers q) then q\<lparr>workers := [], stopping := S_returned\<rparr> else q
      | S_returned \<Rightarrow> q)"

text \<open>
  The event loop runs one coroutine at a time, in an order and at times the program does not
  choose. A schedule lists what runs next: a worker, the coroutine \<^verbatim>\<open>stop\<close>, or a request
  handler that enqueues a task.
\<close>

datatype 'w event =
    WorkerRuns nat
  | StopRuns
  | Enqueues string "'w \<Rightarrow> (raised + unit) \<times> 'w"

fun step :: "'w event \<Rightarrow> 'w BackgroundTaskQueue \<Rightarrow> 'w BackgroundTaskQueue" where
  "step (WorkerRuns i) q = worker_step i q"
| "step StopRuns q = stop_step q"
| "step (Enqueues uuid task_func) q = snd (enqueue uuid task_func q)"

fun run :: "'w event list \<Rightarrow> 'w BackgroundTaskQueue \<Rightarrow> 'w BackgroundTaskQueue" where
  "run [] q = q"
| "run (ev # evs) q = run evs (step ev q)"

section \<open>Vocabulary of the statements, and sample inputs\<close>

text \<open>The cache object holds a client and is enabled: its initial ping was answered.\<close>

definition connected :: "RedisCache \<Rightarrow> bool" where
  "connected c = (enabled c \<and> client c \<noteq> None)"

text \<open>The events of a trace that delete cache keys.\<close>

fun is_del :: "'j io_event \<Rightarrow> bool" where
  "is_del (Redis (DEL ks)) = True"
| "is_del ev = False"

fun is_embed_call :: "'j io_event \<Rightarrow> bool" where
  "is_embed_call (EmbedCall t) = True"
| "is_embed_call ev = False"

definition fresh_world :: "int list world" where
  "fresh_world =
     \<lparr>entries = [], clock = 0, redis_faults = [], rows = [], db_faults = [], trace = []\<rparr>"

definition live_cache :: RedisCache where
  "live_cache = \<lparr>client = Some (RedisClient ''localhost'' 6379 0), enabled = True\<rparr>"

subsection \<open>A sample of the libraries: JSON on lists of integers\<close>

fun digits10 :: "nat \<Rightarrow> string" where
  "digits10 n =
     (if n < 10 then [char_of (48 + n)]
      else digits10 (n div 10) @ [char_of (48 + n mod 10)])"

declare digits10.simps [simp del]

definition render_int :: "int \<Rightarrow> string" where
  "render_int i = (if i < 0 then CHR ''-'' # digits10 (nat (- i)) else digits10 (nat i))"

fun join_with :: "string \<Rightarrow> string list \<Rightarrow> string" where
  "join_with sep [] = []"
| "join_with sep [x] = x"
| "join_with sep (x # y # ys) = x @ sep @ join_with sep (y # ys)"

definition ints_dumps :: "int list \<Rightarrow> string" where
  "ints_dumps xs = ''['' @ join_with '', '' (map render_int xs) @ '']''"

definition json_space :: "char \<Rightarrow> bool" where
  "json_space c = (of_char c \<in> {9, 10, 13, 32 :: nat})"

definition trim :: "string \<Rightarrow> string" where
  "trim s = rev (dropWhile json_space (rev (dropWhile json_space s)))"

fun split_on :: "char \<Rightarrow> string \<Rightarrow> string list" where
  "split_on c [] = [[]]"
| "split_on c (x # xs) =
     (if x = c then [] # split_on c xs
      else (case split_on c xs of [] \<Rightarrow> [[x]] | ys # yss \<Rightarrow> (x # ys) # yss))"

fun parse_digits :: "string \<Rightarrow> nat \<Rightarrow> nat option" where
  "parse_digits [] acc = Some acc"
| "parse_digits (c # cs) acc =
     (if CHR ''0'' \<le> c \<and> c \<le> CHR ''9''
      then parse_digits cs (10 * acc + (of_char c - 48))
      else None)"

definition parse_nat_literal :: "string \<Rightarrow> nat option" where
  "parse_nat_literal s =
     (case s of
        [] \<Rightarrow> None
      | c # cs \<Rightarrow> if c = CHR ''0'' \<and> cs \<noteq> [] then None else parse_digits s 0)"

definition parse_int_literal :: "string \<Rightarrow> int option" where
  "parse_int_literal s =
     (case s of
        [] \<Rightarrow> None
      | c # cs \<Rightarrow>
          if c = CHR ''-'' then map_option (\<lambda>n. - int n) (parse_nat_literal cs)
          else map_option int (parse_nat_literal s))"

fun all_some :: "'a option list \<Rightarrow> 'a list option" where
  "all_some [] = Some []"
| "all_some (None # xs) = None"
| "all_some (Some x # xs) = map_option ((#) x) (all_some xs)"

definition ints_loads :: "string \<Rightarrow> py_error + int list" where
  "ints_loads s =
     (case trim s of
        [] \<Rightarrow> Inl (JSONDecodeError ''Expecting value'')
      | c # cs \<Rightarrow>
          if c = CHR ''['' \<and> cs \<noteq> [] \<and> last cs = CHR '']''
          then (if trim (butlast cs) = [] then Inr []
                else (case all_some (map (\<lambda>tok. parse_int_literal (trim tok))
                                       (split_on CHR '','' (butlast cs))) of
                        None \<Rightarrow> Inl (JSONDecodeError ''Expecting value'')
                      | Some xs \<Rightarrow> Inr xs))
          else Inl (JSONDecodeError ''Expecting value''))"

text \<open>
  The digests \<^verbatim>\<open>hashlib.sha256(text.encode('utf-8')).hexdigest()\<close> of the texts the examples
  use (of the empty text elsewhere).
\<close>

definition sample_sha256hex :: "string \<Rightarrow> string" where
  "sample_sha256hex t =
     (if t = ''hello''
      then ''2cf24dba5fb0a30e26e83b2ac5b9e29e1b161e5c1fa7425e73043362938b9824''
      else if t = ''meeting notes''
      then ''db78826009a9e6f5e388046abb7dc257a3afc2eb4a2f1d190618e7c8d838e217''
      else ''e3b0c44298fc1c149afbf4c8996fb92427ae41e4649b934ca495991b7852b855'')"

definition sample_env :: "int list env" where
  "sample_env =
     \<lparr>sha256hex = sample_sha256hex,
      new_id = (\<lambda>n. ''mem-'' @ digits10 n),
      json_dumps = ints_dumps,
      json_loads = ints_loads,
      truthy = (\<lambda>xs. xs \<noteq> []),
      claude_api = (\<lambda>t. Inr ('' Summary: '' @ t @ '' '')),
      embed_api = (\<lambda>t. Inr [int (length t), 7, - 3])\<rparr>"

definition sample_request :: SmartCopyRequest where
  "sample_request =
     \<lparr>rq_text = ''meeting notes'', rq_session_id = ''s1'', rq_user_id = ''u1'',
      rq_source = Some ''mac-app''\<rparr>"

definition down_world :: "int list world" where
  "down_world = fresh_world\<lparr>redis_faults := [Some (ConnectionError ''Connection refused'')]\<rparr>"

definition flaky_world :: "int list world" where
  "flaky_world =
     fresh_world\<lparr>entries := [(''session:abc:memories'', ''[]'', 600)],
                 redis_faults := [None, Some (TimeoutError ''Timeout reading from socket'')]\<rparr>"

text \<open>
  A session identifier without the two characters that change what a glob pattern built
  around it matches: the opening bracket and the backslash.
\<close>

definition glob_safe :: "string \<Rightarrow> bool" where
  "glob_safe s = list_all (\<lambda>c. c \<noteq> CHR ''['' \<and> c \<noteq> backslash) s"

definition odd_session_id :: string where
  "odd_session_id = [CHR ''a'', backslash, CHR ''b'']"

definition warm_world :: "int list world" where
  "warm_world =
     fresh_world\<lparr>entries := [(''session:s1'', ''[1]'', 3600),
                              (''session:s1:memories'', ''[2, 3]'', 600),
                              (''session:s1:description'', ''Notes on the cache rollout'', 3600)]\<rparr>"

text \<open>The text \<^verbatim>\<open>create_embedding\<close> works on: the first \<^verbatim>\<open>max_chars\<close> characters.\<close>

definition clip :: "string \<Rightarrow> string" where
  "clip t = (if length t > max_chars then take max_chars t else t)"

definition stale_world :: "int list world" where
  "stale_world =
     fresh_world\<lparr>entries :=
       [(''session:s1:description'', [], 3600),
        (''embed:v1:db78826009a9e6f5e388046abb7dc257a3afc2eb4a2f1d190618e7c8d838e217'', [], 86400),
        (''embed:v1:2cf24dba5fb0a30e26e83b2ac5b9e29e1b161e5c1fa7425e73043362938b9824'', ''[]'',
         86400)]\<rparr>"

text \<open>The datastore answers the next insert: its fault script does not start with a fault.\<close>

definition db_answers :: "'j world \<Rightarrow> bool" where
  "db_answers w = ((case db_faults w of [] \<Rightarrow> None | f # fs \<Rightarrow> f) = None)"

definition overloaded_env :: "int list env" where
  "overloaded_env = sample_env\<lparr>claude_api := (\<lambda>t. Inl (Exception ''overloaded''))\<rparr>"

definition unembeddable_env :: "int list env" where
  "unembeddable_env = sample_env\<lparr>embed_api := (\<lambda>t. Inl (Exception ''rate limited''))\<rparr>"

definition timeout_world :: "int list world" where
  "timeout_world =
     warm_world\<lparr>redis_faults :=
       [None, None, None, Some (TimeoutError ''Timeout reading from socket'')]\<rparr>"

text \<open>The world in which \<^verbatim>\<open>save_memory\<close> is called.\<close>

definition before_save :: "'j env \<Rightarrow> RedisCache option \<Rightarrow> string \<Rightarrow> 'j world \<Rightarrow> 'j world" where
  "before_save E ec t w =
     log_embedding_failure (fst (create_embedding E ec t (snd (process_text E t w))))
       (snd (create_embedding E ec t (snd (process_text E t w))))"

definition embedding_result :: "'j env \<Rightarrow> RedisCache option \<Rightarrow> string \<Rightarrow> 'j world \<Rightarrow> 'j option" where
  "embedding_result E ec t w =
     (case fst (create_embedding E ec t (snd (process_text E t w))) of
        Inl e \<Rightarrow> None | Inr v \<Rightarrow> Some v)"

subsection \<open>The task queue\<close>

text \<open>Workers waiting for a task, and workers running one.\<close>

fun waits :: "'w worker_pc \<Rightarrow> bool" where
  "waits W_get = True"
| "waits p = False"

fun busy :: "'w worker_pc \<Rightarrow> bool" where
  "busy (W_run t) = True"
| "busy p = False"

definition getters :: "'w BackgroundTaskQueue \<Rightarrow> nat" where
  "getters q = length (filter (\<lambda>wk. waits (pc wk)) (workers q))"

definition runners :: "'w BackgroundTaskQueue \<Rightarrow> nat" where
  "runners q = length (filter (\<lambda>wk. busy (pc wk)) (workers q))"

text \<open>
  The state in which \<^verbatim>\<open>stop\<close> hangs: it waits in \<^verbatim>\<open>queue.join()\<close>, \<^verbatim>\<open>is_running\<close> is
  already false, and more tasks are queued than workers are left to take one.
\<close>

definition stuck :: "'w BackgroundTaskQueue \<Rightarrow> bool" where
  "stuck q =
     (stopping q = S_join False \<and> \<not> is_running q \<and> getters q < length (queue q)
      \<and> length (queue q) + runners q \<le> unfinished_tasks q)"

text \<open>
  A shutdown with a backlog: two workers idle in \<^verbatim>\<open>queue.get()\<close>, three tasks enqueued,
  then \<^verbatim>\<open>stop()\<close> called.
\<close>

definition noop :: "unit \<Rightarrow> (raised + unit) \<times> unit" where
  "noop w = (Inr (), w)"

definition shutdown_with_backlog :: "unit BackgroundTaskQueue" where
  "shutdown_with_backlog =
     run [WorkerRuns 0, WorkerRuns 1,
          Enqueues ''t1'' noop, Enqueues ''t2'' noop, Enqueues ''t3'' noop,
          StopRuns]
       (start (BackgroundTaskQueue_init 2 ()))"


text \<open>A shutdown in which the two waiting workers have one task each to take.\<close>

definition shutdown_with_two_tasks :: "unit BackgroundTaskQueue" where
  "shutdown_with_two_tasks =
     run [WorkerRuns 0, WorkerRuns 1,
          Enqueues ''t1'' noop, Enqueues ''t2'' noop,
          StopRuns]
       (start (BackgroundTaskQueue_init 2 ()))"

text \<open>
  A worker that has taken a task which will raise, with a second task queued behind it; the
  world of the tasks is a counter.
\<close>

definition failing_task :: "nat \<Rightarrow> (raised + unit) \<times> nat" where
  "failing_task n = (Inl (Exc (Exception ''boom'')), n + 1)"

definition counting_task :: "nat \<Rightarrow> (raised + unit) \<times> nat" where
  "counting_task n = (Inr (), n + 10)"

definition busy_queue :: "nat BackgroundTaskQueue" where
  "busy_queue =
     run [WorkerRuns 0, Enqueues ''t1'' failing_task, Enqueues ''t2'' counting_task, WorkerRuns 0]
       (start (BackgroundTaskQueue_init 1 0))"

text \<open>
  The same worker with a first task that raises \<^verbatim>\<open>asyncio.CancelledError\<close>; and the
  worker of \<open>busy_queue\<close> when \<^verbatim>\<open>stop()\<close> has been called while its task runs.
\<close>

definition cancelling_task :: "nat \<Rightarrow> (raised + unit) \<times> nat" where
  "cancelling_task n = (Inl CancelledError, n + 1)"

definition cancelled_queue :: "nat BackgroundTaskQueue" where
  "cancelled_queue =
     run [WorkerRuns 0, Enqueues ''t1'' cancelling_task, Enqueues ''t2'' counting_task,
          WorkerRuns 0]
       (start (BackgroundTaskQueue_init 1 0))"

definition stopping_queue :: "nat BackgroundTaskQueue" where
  "stopping_queue = run [StopRuns] busy_queue"

text \<open>
  What \<^verbatim>\<open>except Exception\<close> lets a worker go on from: a return or an \<^verbatim>\<open>Exception\<close>; and
  a list of tasks of which each one, run in order from a given world, ends in that way.
\<close>

fun catchable :: "raised + unit \<Rightarrow> bool" where
  "catchable (Inr u) = True"
| "catchable (Inl (Exc e)) = True"
| "catchable (Inl CancelledError) = False"
| "catchable (Inl (BaseExc name)) = False"

fun all_catchable :: "'w task list \<Rightarrow> 'w \<Rightarrow> bool" where
  "all_catchable [] w = True"
| "all_catchable (t # ts) w =
     (catchable (fst (func t w)) \<and> all_catchable ts (snd (func t w)))"

text \<open>The task that does to the world what \<open>t\<close> does, and returns.\<close>

definition returning :: "'w task \<Rightarrow> 'w task" where
  "returning t = t\<lparr>func := (\<lambda>w. (Inr (), snd (func t w)))\<rparr>"

section \<open>The Redis server: what the commands do\<close>

lemma map_of_filter_neq:
  "map_of (filter (\<lambda>p. fst p \<noteq> k) xs) k' = (if k' = k then None else map_of xs k')"
  by (induction xs) auto

lemma map_of_filter_notin:
  "map_of (filter (\<lambda>p. fst p \<notin> A) xs) k = (if k \<in> A then None else map_of xs k)"
  by (induction xs) auto

lemma redis_lookup_trace [simp]: "redis_lookup (w\<lparr>trace := t\<rparr>) k = redis_lookup w k"
  by (simp add: redis_lookup_def cong: option.case_cong)

lemma redis_lookup_faults [simp]: "redis_lookup (w\<lparr>redis_faults := t\<rparr>) k = redis_lookup w k"
  by (simp add: redis_lookup_def cong: option.case_cong)

lemma redis_lookup_rows [simp]: "redis_lookup (w\<lparr>rows := t\<rparr>) k = redis_lookup w k"
  by (simp add: redis_lookup_def cong: option.case_cong)

lemma redis_lookup_db_faults [simp]: "redis_lookup (w\<lparr>db_faults := t\<rparr>) k = redis_lookup w k"
  by (simp add: redis_lookup_def cong: option.case_cong)

lemma redis_lookup_setex:
  "redis_lookup (w\<lparr>entries := (k, v, e) # filter (\<lambda>p. fst p \<noteq> k) (entries w)\<rparr>) k' =
     (if k' = k then (if clock w < e then Some v else None) else redis_lookup w k')"
  by (simp add: redis_lookup_def map_of_filter_neq cong: option.case_cong)

lemma redis_lookup_del:
  "redis_lookup (w\<lparr>entries := filter (\<lambda>p. fst p \<notin> set ks) (entries w)\<rparr>) k =
     (if k \<in> set ks then None else redis_lookup w k)"
  by (simp add: redis_lookup_def map_of_filter_notin cong: option.case_cong)

lemma redis_send_healthy:
  "redis_faults w = [] \<Longrightarrow> redis_send cmd w = (None, w\<lparr>trace := trace w @ [Redis cmd]\<rparr>)"
  by (simp add: redis_send_def)

lemma redis_send_fault:
  "redis_faults w = f # fs \<Longrightarrow>
     redis_send cmd w = (f, w\<lparr>redis_faults := fs, trace := trace w @ [Redis cmd]\<rparr>)"
  by (simp add: redis_send_def)

section \<open>RedisCache: connected and answered, switched off, or failing\<close>

lemma RedisCache_get_live:
  "connected c \<Longrightarrow> redis_faults w = [] \<Longrightarrow>
     RedisCache_get c k w =
       (Inr (case redis_lookup w k of None \<Rightarrow> None | Some v \<Rightarrow> if v \<noteq> [] then Some v else None),
        w\<lparr>trace := trace w @ [Redis (GET k)]\<rparr>)"
  by (auto simp: RedisCache_get_def connected_def redis_get_def redis_send_healthy
      split: option.splits)

lemma RedisCache_set_live:
  "connected c \<Longrightarrow> redis_faults w = [] \<Longrightarrow> 0 < ttl \<Longrightarrow>
     RedisCache_set c k v ttl w =
       (Inr True, w\<lparr>trace := trace w @ [Redis (SETEX k ttl v)],
                    entries := (k, v, clock w + nat ttl) # filter (\<lambda>p. fst p \<noteq> k) (entries w)\<rparr>)"
  by (simp add: RedisCache_set_def connected_def redis_setex_def redis_send_healthy)

lemma RedisCache_delete_live:
  "connected c \<Longrightarrow> redis_faults w = [] \<Longrightarrow>
     RedisCache_delete c k w =
       (Inr True, w\<lparr>trace := trace w @ [Redis (DEL [k])],
                    entries := filter (\<lambda>p. fst p \<notin> set [k]) (entries w)\<rparr>)"
  by (simp add: RedisCache_delete_def connected_def redis_delete_def redis_send_healthy)

lemma RedisCache_off:
  "\<not> connected c \<Longrightarrow> RedisCache_get c k w = (Inr None, w)"
  "\<not> connected c \<Longrightarrow> RedisCache_set c k v ttl w = (Inr False, w)"
  "\<not> connected c \<Longrightarrow> RedisCache_delete c k w = (Inr False, w)"
  "\<not> connected c \<Longrightarrow> RedisCache_delete_pattern c pat w = (Inr False, w)"
  by (auto simp: connected_def RedisCache_get_def RedisCache_set_def RedisCache_delete_def
        RedisCache_delete_pattern_def)

lemma RedisCache_fault:
  "redis_faults w = Some e # fs \<Longrightarrow> fst (RedisCache_get c k w) = Inr None"
  "redis_faults w = Some e # fs \<Longrightarrow> fst (RedisCache_set c k v ttl w) = Inr False"
  "redis_faults w = Some e # fs \<Longrightarrow> fst (RedisCache_delete c k w) = Inr False"
  "redis_faults w = Some e # fs \<Longrightarrow> fst (RedisCache_delete_pattern c pat w) = Inr False"
  by (simp_all add: RedisCache_get_def RedisCache_set_def RedisCache_delete_def
        RedisCache_delete_pattern_def redis_get_def redis_setex_def redis_delete_def
        redis_keys_def redis_send_fault)

lemma RedisCache_init_down:
  "redis_faults w = Some e # fs \<Longrightarrow> \<not> connected (fst (RedisCache_init host port db w))"
  by (simp add: RedisCache_init_def redis_ping_def redis_send_fault connected_def)

lemma RedisCache_init_up:
  "redis_faults w = [] \<Longrightarrow> connected (fst (RedisCache_init host port db w))"
  by (simp add: RedisCache_init_def redis_ping_def redis_send_healthy connected_def)

lemma RedisCache_delete_pattern_second:
  "redis_faults w = None # Some e # fs \<Longrightarrow> fst (redis_keys pat w) \<noteq> Inr [] \<Longrightarrow>
     fst (RedisCache_delete_pattern c pat w) = Inr False"
  by (simp add: RedisCache_delete_pattern_def redis_keys_def redis_delete_def redis_send_fault)

lemma connected_live_cache: "connected live_cache"
  by (simp add: connected_def live_cache_def)

lemma set_session_description_live:
  "connected c \<Longrightarrow> redis_faults w = [] \<Longrightarrow>
     snd (set_session_description c sid description w) =
       w\<lparr>trace := trace w @ [Redis (SETEX (session_description_key sid) 3600 description)],
         entries := (session_description_key sid, description, clock w + 3600)
                      # filter (\<lambda>p. fst p \<noteq> session_description_key sid) (entries w)\<rparr>"
  by (simp add: set_session_description_def RedisCache_set_live default_ttl_seconds_def)

section \<open>Glob patterns around a literal text\<close>

lemma glob_star_skip: "redis_glob r t \<Longrightarrow> redis_glob (CHR ''*'' # r) t"
  by (cases t) auto

lemma glob_star_all: "redis_glob ''*'' s"
  by (induction s) auto

lemma glob_literal_prefix:
  "glob_safe p \<Longrightarrow> redis_glob q s \<Longrightarrow> redis_glob (p @ q) (p @ s)"
proof (induction p)
  case Nil
  then show ?case by simp
next
  case (Cons c p)
  then have ih: "redis_glob (p @ q) (p @ s)" by (simp add: glob_safe_def)
  from Cons.prems have c: "c \<noteq> CHR ''[''" "c \<noteq> backslash" by (simp_all add: glob_safe_def)
  show ?case
  proof (cases "c = CHR ''*''")
    case True
    with ih show ?thesis by (simp add: glob_star_skip)
  next
    case False
    with c ih show ?thesis by simp
  qed
qed

lemma glob_safe_append: "glob_safe (a @ b) = (glob_safe a \<and> glob_safe b)"
  by (simp add: glob_safe_def)

lemma session_pattern_matches:
  assumes "glob_safe sid"
  shows "redis_glob (''session:'' @ sid @ '':*'') (''session:'' @ sid @ '':'' @ rest)"
proof -
  have "glob_safe (''session:'' @ sid @ '':'')"
    using assms by (simp add: glob_safe_append) (simp add: glob_safe_def)
  from glob_literal_prefix [OF this glob_star_all [of rest]]
  show ?thesis by simp
qed

lemma RedisCache_delete_pattern_live:
  assumes "connected c" and "redis_faults w = []"
  shows "fst (RedisCache_delete_pattern c pat w) = Inr True"
    and "redis_faults (snd (RedisCache_delete_pattern c pat w)) = []"
    and "clock (snd (RedisCache_delete_pattern c pat w)) = clock w"
    and "redis_lookup (snd (RedisCache_delete_pattern c pat w)) k =
           (if redis_glob pat k then None else redis_lookup w k)"
proof -
  define ks where
    "ks = filter (\<lambda>k. redis_lookup w k \<noteq> None \<and> redis_glob pat k) (remdups (map fst (entries w)))"
  define w1 where "w1 = w\<lparr>trace := trace w @ [Redis (KEYS pat)]\<rparr>"
  have keys: "redis_keys pat w = (Inr ks, w1)"
    using assms by (simp add: redis_keys_def redis_send_healthy ks_def w1_def)
  have w1: "redis_faults w1 = []" "clock w1 = clock w" "entries w1 = entries w"
    using assms by (simp_all add: w1_def)
  have lk: "redis_lookup w1 k = redis_lookup w k"
    by (simp add: w1_def)
  have del: "redis_delete ks w1 =
               (Inr (length (filter (\<lambda>k. redis_lookup w1 k \<noteq> None) (remdups ks))),
                w1\<lparr>trace := trace w1 @ [Redis (DEL ks)],
                   entries := filter (\<lambda>p. fst p \<notin> set ks) (entries w1)\<rparr>)"
    using w1(1) by (simp add: redis_delete_def redis_send_healthy)
  have mem: "k \<in> set ks \<longleftrightarrow> redis_lookup w k \<noteq> None \<and> redis_glob pat k"
    using map_of_eq_None_iff [of "entries w" k]
    by (auto simp: ks_def redis_lookup_def split: option.splits)
  have unf: "RedisCache_delete_pattern c pat w =
               (if ks \<noteq> [] then
                  (Inr True, w1\<lparr>trace := trace w1 @ [Redis (DEL ks)],
                       entries := filter (\<lambda>p. fst p \<notin> set ks) (entries w1)\<rparr>)
                else (Inr True, w1))"
    using assms(1) by (simp add: RedisCache_delete_pattern_def connected_def keys del)
  show "fst (RedisCache_delete_pattern c pat w) = Inr True"
    by (simp add: unf)
  show "redis_faults (snd (RedisCache_delete_pattern c pat w)) = []"
    by (simp add: unf w1)
  show "clock (snd (RedisCache_delete_pattern c pat w)) = clock w"
    by (simp add: unf w1)
  show "redis_lookup (snd (RedisCache_delete_pattern c pat w)) k =
           (if redis_glob pat k then None else redis_lookup w k)"
  proof (cases "ks = []")
    case True
    then have "redis_lookup w k = None \<or> \<not> redis_glob pat k"
      using mem by auto
    with True show ?thesis
      by (auto simp: unf lk)
  next
    case False
    then have "redis_lookup (snd (RedisCache_delete_pattern c pat w)) k =
                 (if k \<in> set ks then None else redis_lookup w1 k)"
      by (simp add: unf redis_lookup_def map_of_filter_notin cong: option.case_cong)
    with mem lk show ?thesis by auto
  qed
qed

lemma invalidate_session_live:
  assumes "connected c" and "redis_faults w = []"
  shows "fst (invalidate_session c sid w) = Inr ()"
    and "redis_faults (snd (invalidate_session c sid w)) = []"
    and "redis_lookup (snd (invalidate_session c sid w)) k =
           (if k = session_key sid \<or> redis_glob (''session:'' @ sid @ '':*'') k then None
            else redis_lookup w k)"
proof -
  define pat where "pat = ''session:'' @ sid @ '':*''"
  define w1 where "w1 = snd (RedisCache_delete_pattern c pat w)"
  note dp = RedisCache_delete_pattern_live [OF assms, of pat, folded w1_def]
  have r1: "RedisCache_delete_pattern c pat w = (Inr True, w1)"
    using dp(1) by (simp add: prod_eq_iff w1_def)
  note dl = RedisCache_delete_live [OF assms(1) dp(2), of "session_key sid"]
  have unf: "invalidate_session c sid w =
               (Inr (), w1\<lparr>trace := trace w1 @ [Redis (DEL [session_key sid])],
                           entries := filter (\<lambda>p. fst p \<notin> set [session_key sid]) (entries w1)\<rparr>)"
    unfolding invalidate_session_def pat_def [symmetric] by (simp add: r1 dl)
  show "fst (invalidate_session c sid w) = Inr ()"
    by (simp add: unf)
  show "redis_faults (snd (invalidate_session c sid w)) = []"
    by (simp add: unf dp(2))
  show "redis_lookup (snd (invalidate_session c sid w)) k =
           (if k = session_key sid \<or> redis_glob (''session:'' @ sid @ '':*'') k then None
            else redis_lookup w k)"
    unfolding unf pat_def [symmetric]
    using dp(4) [of k] dp(3)
    by (simp add: redis_lookup_def map_of_filter_neq cong: option.case_cong)
qed

lemma get_session_description_live:
  "connected c \<Longrightarrow> redis_faults w = [] \<Longrightarrow>
     fst (get_session_description c sid w) =
       Inr (case redis_lookup w (session_description_key sid) of
              None \<Rightarrow> None | Some v \<Rightarrow> if v \<noteq> [] then Some v else None)"
  by (simp add: get_session_description_def RedisCache_get_live split: option.splits)

lemma json_reader_live:
  "connected c \<Longrightarrow> redis_faults w = [] \<Longrightarrow>
     (case RedisCache_get c k w of
        (Inl e, w') \<Rightarrow> (Inr None, w')
      | (Inr None, w') \<Rightarrow> (Inr None, w')
      | (Inr (Some cached), w') \<Rightarrow>
          if cached \<noteq> [] then
            (case json_loads E cached of
               Inl e \<Rightarrow> (Inr None, w')
             | Inr v \<Rightarrow> (Inr (Some v), w'))
          else (Inr None, w')) =
     (Inr (case redis_lookup w k of
             None \<Rightarrow> None
           | Some s \<Rightarrow> if s = [] then None
                      else (case json_loads E s of Inl e \<Rightarrow> None | Inr v \<Rightarrow> Some v)),
      w\<lparr>trace := trace w @ [Redis (GET k)]\<rparr>)"
  by (simp add: RedisCache_get_live split: option.splits sum.splits)

lemma get_session_live:
  "connected c \<Longrightarrow> redis_faults w = [] \<Longrightarrow>
     get_session E c sid w =
       (Inr (case redis_lookup w (session_key sid) of
               None \<Rightarrow> None
             | Some s \<Rightarrow> if s = [] then None
                        else (case json_loads E s of Inl e \<Rightarrow> None | Inr v \<Rightarrow> Some v)),
        w\<lparr>trace := trace w @ [Redis (GET (session_key sid))]\<rparr>)"
  unfolding get_session_def by (rule json_reader_live)

lemma get_session_memories_live:
  "connected c \<Longrightarrow> redis_faults w = [] \<Longrightarrow>
     get_session_memories E c sid w =
       (Inr (case redis_lookup w (session_memories_key sid) of
               None \<Rightarrow> None
             | Some s \<Rightarrow> if s = [] then None
                        else (case json_loads E s of Inl e \<Rightarrow> None | Inr v \<Rightarrow> Some v)),
        w\<lparr>trace := trace w @ [Redis (GET (session_memories_key sid))]\<rparr>)"
  unfolding get_session_memories_def by (rule json_reader_live)

lemma get_embedding_live:
  "connected c \<Longrightarrow> redis_faults w = [] \<Longrightarrow>
     get_embedding E c t w =
       (Inr (case redis_lookup w (embedding_key E t) of
               None \<Rightarrow> None
             | Some s \<Rightarrow> if s = [] then None
                        else (case json_loads E s of Inl e \<Rightarrow> None | Inr v \<Rightarrow> Some v)),
        w\<lparr>trace := trace w @ [Redis (GET (embedding_key E t))]\<rparr>)"
  unfolding get_embedding_def by (rule json_reader_live)


section \<open>Readers and the embedding service\<close>

lemma RedisCache_get_Some:
  "fst (RedisCache_get c k w) = Inr (Some v) \<Longrightarrow> redis_lookup w k = Some v \<and> v \<noteq> []"
  by (auto simp: RedisCache_get_def redis_get_def redis_send_def
      split: if_splits list.splits option.splits)

lemma RedisCache_get_Inr: "\<exists>r. fst (RedisCache_get c k w) = Inr r"
  by (auto simp: RedisCache_get_def redis_get_def redis_send_def
      split: if_splits list.splits option.splits)

lemma RedisCache_get_empty:
  assumes "redis_lookup w k = Some []"
  shows "fst (RedisCache_get c k w) = Inr None"
proof -
  obtain r where r: "fst (RedisCache_get c k w) = Inr r"
    using RedisCache_get_Inr by blast
  show ?thesis
  proof (cases r)
    case None
    with r show ?thesis by simp
  next
    case (Some v)
    with r RedisCache_get_Some [of c k w v] assms show ?thesis by auto
  qed
qed

lemma get_embedding_empty:
  assumes "redis_lookup w (embedding_key E t) = Some []"
  shows "fst (get_embedding E c t w) = Inr None"
  using RedisCache_get_empty [OF assms, of c]
  by (cases "RedisCache_get c (embedding_key E t) w") (simp add: get_embedding_def)

lemma save_embedding_live:
  "connected c \<Longrightarrow> redis_faults w = [] \<Longrightarrow> 0 < ttl \<Longrightarrow>
     save_embedding E c t v ttl w =
       (Inr (), w\<lparr>trace := trace w @ [Redis (SETEX (embedding_key E t) ttl (json_dumps E v))],
                  entries := (embedding_key E t, json_dumps E v, clock w + nat ttl)
                      # filter (\<lambda>p. fst p \<noteq> embedding_key E t) (entries w)\<rparr>)"
  by (simp add: save_embedding_def RedisCache_set_live)

lemma generate_embedding_live:
  "connected c \<Longrightarrow> redis_faults w = [] \<Longrightarrow> embed_api E t = Inr v \<Longrightarrow>
     generate_embedding E (Some c) t w =
       (Inr v, w\<lparr>trace := trace w @ [EmbedCall t,
                     Redis (SETEX (embedding_key E t) 86400 (json_dumps E v))],
                 entries := (embedding_key E t, json_dumps E v, clock w + 86400)
                      # filter (\<lambda>p. fst p \<noteq> embedding_key E t) (entries w)\<rparr>)"
  by (simp add: generate_embedding_def call_embed_api_def save_embedding_live
        embedding_ttl_seconds_def)

lemma create_embedding_miss:
  assumes "connected c" and "redis_faults w = []"
    and "embed_api E (clip t) = Inr v"
    and "redis_lookup w (embedding_key E (clip t)) = None"
  shows "create_embedding E (Some c) t w =
       (Inr v, w\<lparr>trace := trace w @ [Redis (GET (embedding_key E (clip t))), EmbedCall (clip t),
                     Redis (SETEX (embedding_key E (clip t)) 86400 (json_dumps E v))],
                 entries := (embedding_key E (clip t), json_dumps E v, clock w + 86400)
                      # filter (\<lambda>p. fst p \<noteq> embedding_key E (clip t)) (entries w)\<rparr>)"
proof -
  have g: "get_embedding E c (clip t) w =
             (Inr None, w\<lparr>trace := trace w @ [Redis (GET (embedding_key E (clip t)))]\<rparr>)"
    using assms by (simp add: get_embedding_live)
  have "generate_embedding E (Some c) (clip t)
           (w\<lparr>trace := trace w @ [Redis (GET (embedding_key E (clip t)))]\<rparr>) =
        (Inr v, w\<lparr>trace := trace w @ [Redis (GET (embedding_key E (clip t))), EmbedCall (clip t),
                     Redis (SETEX (embedding_key E (clip t)) 86400 (json_dumps E v))],
                 entries := (embedding_key E (clip t), json_dumps E v, clock w + 86400)
                      # filter (\<lambda>p. fst p \<noteq> embedding_key E (clip t)) (entries w)\<rparr>)"
    using assms by (simp add: generate_embedding_live)
  then show ?thesis
    unfolding create_embedding_def clip_def [symmetric] Let_def
    by (simp add: g py_bool_def)
qed

lemma create_embedding_hit:
  assumes "connected c" and "redis_faults w = []"
    and "redis_lookup w (embedding_key E (clip t)) = Some s" and "s \<noteq> []"
    and "json_loads E s = Inr v" and "truthy E v"
  shows "create_embedding E (Some c) t w =
       (Inr v, w\<lparr>trace := trace w @ [Redis (GET (embedding_key E (clip t)))]\<rparr>)"
proof -
  have g: "get_embedding E c (clip t) w =
             (Inr (Some v), w\<lparr>trace := trace w @ [Redis (GET (embedding_key E (clip t)))]\<rparr>)"
    using assms by (simp add: get_embedding_live)
  show ?thesis
    unfolding create_embedding_def clip_def [symmetric] Let_def
    using assms(6) by (simp add: g py_bool_def)
qed


section \<open>What the cache operations leave alone\<close>

lemma RedisCache_get_frame:
  "rows (snd (RedisCache_get c k w)) = rows w"
  "db_faults (snd (RedisCache_get c k w)) = db_faults w"
  "clock (snd (RedisCache_get c k w)) = clock w"
  "entries (snd (RedisCache_get c k w)) = entries w"
  "filter is_embed_call (trace (snd (RedisCache_get c k w))) = filter is_embed_call (trace w)"
  "filter is_del (trace (snd (RedisCache_get c k w))) = filter is_del (trace w)"
  by (auto simp: RedisCache_get_def redis_get_def redis_send_def
      split: list.splits option.splits)

lemma RedisCache_set_frame:
  "rows (snd (RedisCache_set c k v ttl w)) = rows w"
  "db_faults (snd (RedisCache_set c k v ttl w)) = db_faults w"
  "clock (snd (RedisCache_set c k v ttl w)) = clock w"
  "filter is_embed_call (trace (snd (RedisCache_set c k v ttl w))) = filter is_embed_call (trace w)"
  "filter is_del (trace (snd (RedisCache_set c k v ttl w))) = filter is_del (trace w)"
  by (auto simp: RedisCache_set_def redis_setex_def redis_send_def
      split: list.splits option.splits)

lemma RedisCache_set_other_key:
  "k' \<noteq> k \<Longrightarrow> redis_lookup (snd (RedisCache_set c k v ttl w)) k' = redis_lookup w k'"
  by (auto simp: RedisCache_set_def redis_setex_def redis_send_def redis_lookup_def
        map_of_filter_neq
      split: list.splits option.splits cong: option.case_cong)

lemma redis_lookup_same:
  "entries w' = entries w \<Longrightarrow> clock w' = clock w \<Longrightarrow> redis_lookup w' k = redis_lookup w k"
  by (simp add: redis_lookup_def cong: option.case_cong)

lemma get_embedding_frame:
  "rows (snd (get_embedding E c t w)) = rows w"
  "db_faults (snd (get_embedding E c t w)) = db_faults w"
  "clock (snd (get_embedding E c t w)) = clock w"
  "entries (snd (get_embedding E c t w)) = entries w"
  "filter is_embed_call (trace (snd (get_embedding E c t w))) = filter is_embed_call (trace w)"
  "filter is_del (trace (snd (get_embedding E c t w))) = filter is_del (trace w)"
  using RedisCache_get_frame [of c "embedding_key E t" w]
  by (auto simp: get_embedding_def split: prod.splits sum.splits option.splits)

lemma save_embedding_frame:
  "rows (snd (save_embedding E c t v ttl w)) = rows w"
  "db_faults (snd (save_embedding E c t v ttl w)) = db_faults w"
  "clock (snd (save_embedding E c t v ttl w)) = clock w"
  "filter is_embed_call (trace (snd (save_embedding E c t v ttl w))) = filter is_embed_call (trace w)"
  "filter is_del (trace (snd (save_embedding E c t v ttl w))) = filter is_del (trace w)"
  using RedisCache_set_frame [of c "embedding_key E t" "json_dumps E v" ttl w]
  by (auto simp: save_embedding_def split: prod.splits sum.splits)

lemma save_embedding_other_key:
  "k' \<noteq> embedding_key E t \<Longrightarrow>
     redis_lookup (snd (save_embedding E c t v ttl w)) k' = redis_lookup w k'"
  using RedisCache_set_other_key [of k' "embedding_key E t" c "json_dumps E v" ttl w]
  by (auto simp: save_embedding_def split: prod.splits sum.splits)

lemma generate_embedding_frame:
  "rows (snd (generate_embedding E cache t w)) = rows w"
  "db_faults (snd (generate_embedding E cache t w)) = db_faults w"
  "clock (snd (generate_embedding E cache t w)) = clock w"
  "filter is_del (trace (snd (generate_embedding E cache t w))) = filter is_del (trace w)"
  by (auto simp: generate_embedding_def call_embed_api_def save_embedding_frame
      split: prod.splits sum.splits option.splits
      dest!: arg_cong [where f = snd])

lemma generate_embedding_trace:
  "filter is_embed_call (trace (snd (generate_embedding E cache t w)))
     = filter is_embed_call (trace w) @ [EmbedCall t]"
  by (auto simp: generate_embedding_def call_embed_api_def save_embedding_frame
      split: prod.splits sum.splits option.splits
      dest!: arg_cong [where f = snd])

section \<open>The write path, step by step\<close>

lemma process_text_fail:
  "claude_api E t = Inl e \<Longrightarrow>
     process_text E t w = (Inl (Exception (''Claude API error: '' @ str_exc e)),
                           w\<lparr>trace := trace w @ [ClaudeCall t]\<rparr>)"
  by (simp add: process_text_def)

lemma process_text_ok:
  "claude_api E t = Inr a \<Longrightarrow>
     process_text E t w = (Inr (strip a), w\<lparr>trace := trace w @ [ClaudeCall t]\<rparr>)"
  by (simp add: process_text_def)

lemma process_text_world:
  "snd (process_text E t w) = w\<lparr>trace := trace w @ [ClaudeCall t]\<rparr>"
  by (simp add: process_text_def split: sum.splits)

lemma generate_embedding_other_key:
  "k \<noteq> embedding_key E t \<Longrightarrow>
     redis_lookup (snd (generate_embedding E cache t w)) k = redis_lookup w k"
  by (auto simp: generate_embedding_def call_embed_api_def save_embedding_other_key
      split: prod.splits sum.splits option.splits
      dest!: arg_cong [where f = snd])

lemma create_embedding_preserves:
  assumes g: "\<And>c w. f (snd (get_embedding E c (clip t) w)) = f w"
    and h: "\<And>w. f (snd (generate_embedding E cache (clip t) w)) = f w"
  shows "f (snd (create_embedding E cache t w)) = f w"
proof (cases cache)
  case None
  then show ?thesis
    unfolding create_embedding_def clip_def [symmetric] Let_def
    using h [of w] by simp
next
  case (Some c)
  obtain r w1 where gw: "get_embedding E c (clip t) w = (r, w1)"
    by (cases "get_embedding E c (clip t) w")
  from g [of c w] gw have w1: "f w1 = f w" by simp
  show ?thesis
  proof (cases r)
    case (Inl e)
    with Some gw w1 show ?thesis
      unfolding create_embedding_def clip_def [symmetric] Let_def by simp
  next
    case (Inr cached)
    show ?thesis
    proof (cases "py_bool E cached")
      case False
      with Some gw w1 Inr h [of w1] show ?thesis
        unfolding create_embedding_def clip_def [symmetric] Let_def by simp
    next
      case True
      then obtain v where "cached = Some v" by (cases cached) (simp_all add: py_bool_def)
      with True Some gw w1 Inr show ?thesis
        unfolding create_embedding_def clip_def [symmetric] Let_def by simp
    qed
  qed
qed

lemma create_embedding_frame:
  "rows (snd (create_embedding E cache t w)) = rows w"
  "db_faults (snd (create_embedding E cache t w)) = db_faults w"
  "clock (snd (create_embedding E cache t w)) = clock w"
  "filter is_del (trace (snd (create_embedding E cache t w))) = filter is_del (trace w)"
  by (rule create_embedding_preserves; simp add: get_embedding_frame generate_embedding_frame)+

lemma create_embedding_other_key:
  assumes "k \<noteq> embedding_key E (clip t)"
  shows "redis_lookup (snd (create_embedding E cache t w)) k = redis_lookup w k"
proof (rule create_embedding_preserves)
  fix c and w :: "'a world"
  show "redis_lookup (snd (get_embedding E c (clip t) w)) k = redis_lookup w k"
    by (rule redis_lookup_same) (simp_all add: get_embedding_frame)
next
  fix w :: "'a world"
  show "redis_lookup (snd (generate_embedding E cache (clip t) w)) k = redis_lookup w k"
    using assms by (rule generate_embedding_other_key)
qed

lemma session_keys_not_embedding_keys:
  "session_memories_key sid \<noteq> embedding_key E t"
  "session_description_key sid \<noteq> embedding_key E t"
  "session_key sid \<noteq> embedding_key E t"
  by (simp_all add: session_memories_key_def session_description_key_def session_key_def
        embedding_key_def)

lemma save_memory_unserializable:
  "save_memory E sid uid t (Inl x) src emb w =
     (Inl (Exception (''Failed to save memory: Object of type Exception is not JSON serializable'')),
      w\<lparr>trace := trace w @
           [DbInsert \<lparr>d_session_id = sid, d_user_id = uid, d_original_text = t,
                      d_processed_text = Inl x, d_source = src,
                      d_embedding = (if py_bool E emb then emb else None)\<rparr>]\<rparr>)"
  by (simp add: save_memory_def db_insert_def)

lemma log_embedding_failure_frame:
  "rows (log_embedding_failure r w) = rows w"
  "db_faults (log_embedding_failure r w) = db_faults w"
  "redis_faults (log_embedding_failure r w) = redis_faults w"
  "filter is_del (trace (log_embedding_failure r w)) = filter is_del (trace w)"
  "redis_lookup (log_embedding_failure r w) k = redis_lookup w k"
  by (simp_all add: log_embedding_failure_def split: sum.splits)


lemma RedisCache_healthy:
  "redis_faults w = [] \<Longrightarrow> redis_faults (snd (RedisCache_get c k w)) = []"
  "redis_faults w = [] \<Longrightarrow> redis_faults (snd (RedisCache_set c k v ttl w)) = []"
  "redis_faults w = [] \<Longrightarrow> redis_faults (snd (RedisCache_delete c k w)) = []"
  by (auto simp: RedisCache_get_def RedisCache_set_def RedisCache_delete_def redis_get_def
        redis_setex_def redis_delete_def redis_send_def split: option.splits)

lemma get_embedding_healthy:
  "redis_faults w = [] \<Longrightarrow> redis_faults (snd (get_embedding E c t w)) = []"
  using RedisCache_healthy(1) [of w c "embedding_key E t"]
  by (auto simp: get_embedding_def split: prod.splits sum.splits option.splits)

lemma save_embedding_healthy:
  "redis_faults w = [] \<Longrightarrow> redis_faults (snd (save_embedding E c t v ttl w)) = []"
  using RedisCache_healthy(2) [of w c "embedding_key E t" "json_dumps E v" ttl]
  by (auto simp: save_embedding_def split: prod.splits sum.splits)

lemma generate_embedding_healthy:
  "redis_faults w = [] \<Longrightarrow> redis_faults (snd (generate_embedding E cache t w)) = []"
proof (cases "embed_api E t")
  case (Inl e)
  then show "redis_faults w = [] \<Longrightarrow> ?thesis"
    by (simp add: generate_embedding_def call_embed_api_def)
next
  case (Inr v)
  assume f: "redis_faults w = []"
  show ?thesis
  proof (cases cache)
    case None
    with Inr f show ?thesis by (simp add: generate_embedding_def call_embed_api_def)
  next
    case (Some c)
    obtain r w2 where s: "save_embedding E c t v embedding_ttl_seconds
                            (w\<lparr>trace := trace w @ [EmbedCall t]\<rparr>) = (r, w2)"
      by (cases "save_embedding E c t v embedding_ttl_seconds
                   (w\<lparr>trace := trace w @ [EmbedCall t]\<rparr>)")
    from save_embedding_healthy [of "w\<lparr>trace := trace w @ [EmbedCall t]\<rparr>" E c t v
           embedding_ttl_seconds] f s
    have "redis_faults w2 = []" by simp
    with Inr Some s show ?thesis
      by (simp add: generate_embedding_def call_embed_api_def split: sum.splits)
  qed
qed

lemma create_embedding_invariant:
  assumes g: "\<And>c w. P w \<Longrightarrow> P (snd (get_embedding E c (clip t) w))"
    and h: "\<And>w. P w \<Longrightarrow> P (snd (generate_embedding E cache (clip t) w))"
    and p: "P w"
  shows "P (snd (create_embedding E cache t w))"
proof (cases cache)
  case None
  then show ?thesis
    unfolding create_embedding_def clip_def [symmetric] Let_def
    using h [OF p] by simp
next
  case (Some c)
  obtain r w1 where gw: "get_embedding E c (clip t) w = (r, w1)"
    by (cases "get_embedding E c (clip t) w")
  from g [OF p, of c] gw have w1: "P w1" by simp
  show ?thesis
  proof (cases r)
    case (Inl e)
    with Some gw w1 show ?thesis
      unfolding create_embedding_def clip_def [symmetric] Let_def by simp
  next
    case (Inr cached)
    show ?thesis
    proof (cases "py_bool E cached")
      case False
      with Some gw Inr h [OF w1] show ?thesis
        unfolding create_embedding_def clip_def [symmetric] Let_def by simp
    next
      case True
      then obtain v where "cached = Some v" by (cases cached) (simp_all add: py_bool_def)
      with True Some gw w1 Inr show ?thesis
        unfolding create_embedding_def clip_def [symmetric] Let_def by simp
    qed
  qed
qed

lemma create_embedding_healthy:
  "redis_faults w = [] \<Longrightarrow> redis_faults (snd (create_embedding E cache t w)) = []"
  by (rule create_embedding_invariant [where P = "\<lambda>w. redis_faults w = []"])
     (simp_all add: get_embedding_healthy generate_embedding_healthy)

lemma save_memory_ok:
  "db_answers w \<Longrightarrow>
     save_memory E sid uid t (Inr p) src emb w =
       (Inr (Some \<lparr>r_id = new_id E (length (rows w)), r_session_id = sid, r_user_id = uid,
                    r_original_text = t, r_processed_text = p, r_source = src,
                    r_embedding = (if py_bool E emb then emb else None)\<rparr>),
        w\<lparr>rows := rows w @
               [\<lparr>r_id = new_id E (length (rows w)), r_session_id = sid, r_user_id = uid,
                 r_original_text = t, r_processed_text = p, r_source = src,
                 r_embedding = (if py_bool E emb then emb else None)\<rparr>],
           db_faults := tl (db_faults w),
           trace := trace w @
               [DbInsert \<lparr>d_session_id = sid, d_user_id = uid, d_original_text = t,
                          d_processed_text = Inr p, d_source = src,
                          d_embedding = (if py_bool E emb then emb else None)\<rparr>]\<rparr>)"
  by (simp add: save_memory_def db_insert_def db_answers_def)

lemma save_memory_refused:
  "\<not> db_answers w \<Longrightarrow> \<exists>e. fst (save_memory E sid uid t (Inr p) src emb w) = Inl e"
  by (auto simp: save_memory_def db_insert_def db_answers_def split: option.splits list.splits)

lemma RedisCache_delete_Inr: "\<exists>b. fst (RedisCache_delete c k w) = Inr b"
  by (auto simp: RedisCache_delete_def redis_delete_def redis_send_def
      split: list.splits option.splits)

lemma RedisCache_delete_frame:
  "rows (snd (RedisCache_delete c k w)) = rows w"
  "db_faults (snd (RedisCache_delete c k w)) = db_faults w"
  "clock (snd (RedisCache_delete c k w)) = clock w"
  "\<exists>tr. trace (snd (RedisCache_delete c k w)) = trace w @ tr"
  by (auto simp: RedisCache_delete_def redis_delete_def redis_send_def
      split: list.splits option.splits)

lemma invalidate_session_memories_eq:
  "invalidate_session_memories c sid w =
     (Inr (), snd (RedisCache_delete c (session_memories_key sid) w))"
  using RedisCache_delete_Inr [of c "session_memories_key sid" w]
  by (auto simp: invalidate_session_memories_def split: prod.splits sum.splits)

lemma invalidate_session_description_eq:
  "invalidate_session_description c sid w =
     (Inr (), snd (RedisCache_delete c (session_description_key sid) w))"
  using RedisCache_delete_Inr [of c "session_description_key sid" w]
  by (auto simp: invalidate_session_description_def split: prod.splits sum.splits)

lemma log_embedding_failure_db [simp]:
  "db_answers (log_embedding_failure r w) = db_answers w"
  by (simp add: db_answers_def log_embedding_failure_frame)

lemma before_save_frame:
  "rows (before_save E ec t w) = rows w"
  "db_faults (before_save E ec t w) = db_faults w"
  "db_answers (before_save E ec t w) = db_answers w"
  "redis_faults w = [] \<Longrightarrow> redis_faults (before_save E ec t w) = []"
  by (simp_all add: before_save_def log_embedding_failure_frame create_embedding_frame
        process_text_world db_answers_def create_embedding_healthy)

lemma smart_copy_steps:
  "smart_copy E sc ec req w =
     (case save_memory E (rq_session_id req) (rq_user_id req) (rq_text req)
             (fst (process_text E (rq_text req) w)) (rq_source req)
             (embedding_result E ec (rq_text req) w) (before_save E ec (rq_text req) w) of
        (Inl e, w4) \<Rightarrow> (Inl (smart_copy_failed e), w4)
      | (Inr None, w4) \<Rightarrow> (Inl (HTTPException 500 ''Failed to save memory''), w4)
      | (Inr (Some memory), w4) \<Rightarrow>
          (case fst (process_text E (rq_text req) w) of
             Inl exc \<Rightarrow>
               (Inl (smart_copy_failed (TypeError ''object of type 'Exception' has no len()'')),
                snd (RedisCache_delete sc (session_description_key (rq_session_id req))
                  (snd (RedisCache_delete sc (session_memories_key (rq_session_id req)) w4))))
           | Inr processed \<Rightarrow>
               (Inr \<lparr>rs_status = ''saved'', rs_memory_id = r_id memory,
                     rs_original_length = length (rq_text req),
                     rs_processed_length = length processed,
                     rs_processed_text = processed\<rparr>,
                snd (RedisCache_delete sc (session_description_key (rq_session_id req))
                  (snd (RedisCache_delete sc (session_memories_key (rq_session_id req)) w4))))))"
  by (simp add: smart_copy_def gather_results_def before_save_def embedding_result_def
        invalidate_session_memories_eq invalidate_session_description_eq
      split: prod.splits sum.splits option.splits)

lemma smart_copy_succeeds:
  assumes a: "claude_api E (rq_text req) = Inr answer" and d: "db_answers w"
  shows "smart_copy E sc ec req w =
     (Inr \<lparr>rs_status = ''saved'', rs_memory_id = new_id E (length (rows w)),
           rs_original_length = length (rq_text req),
           rs_processed_length = length (strip answer),
           rs_processed_text = strip answer\<rparr>,
      snd (RedisCache_delete sc (session_description_key (rq_session_id req))
        (snd (RedisCache_delete sc (session_memories_key (rq_session_id req))
          ((before_save E ec (rq_text req) w)
             \<lparr>rows := rows w @
                [\<lparr>r_id = new_id E (length (rows w)), r_session_id = rq_session_id req,
                  r_user_id = rq_user_id req, r_original_text = rq_text req,
                  r_processed_text = strip answer, r_source = rq_source req,
                  r_embedding = (if py_bool E (embedding_result E ec (rq_text req) w)
                                 then embedding_result E ec (rq_text req) w else None)\<rparr>],
              db_faults := tl (db_faults w),
              trace := trace (before_save E ec (rq_text req) w) @
                [DbInsert \<lparr>d_session_id = rq_session_id req, d_user_id = rq_user_id req,
                   d_original_text = rq_text req, d_processed_text = Inr (strip answer),
                   d_source = rq_source req,
                   d_embedding = (if py_bool E (embedding_result E ec (rq_text req) w)
                                  then embedding_result E ec (rq_text req) w else None)\<rparr>]\<rparr>)))))"
proof -
  have p: "fst (process_text E (rq_text req) w) = Inr (strip answer)"
    using a by (simp add: process_text_ok)
  have d': "db_answers (before_save E ec (rq_text req) w)"
    using d by (simp add: before_save_frame)
  show ?thesis
    unfolding smart_copy_steps p save_memory_ok [OF d']
    by (simp add: before_save_frame)
qed

lemma smart_copy_success_needs:
  assumes "fst (smart_copy E sc ec req w) = Inr resp"
  shows "\<exists>answer. claude_api E (rq_text req) = Inr answer" and "db_answers w"
proof -
  show ex: "\<exists>answer. claude_api E (rq_text req) = Inr answer"
  proof (cases "claude_api E (rq_text req)")
    case (Inl e)
    then have "fst (process_text E (rq_text req) w)
                 = Inl (Exception (''Claude API error: '' @ str_exc e))"
      by (simp add: process_text_fail)
    with assms show ?thesis
      by (simp add: smart_copy_steps save_memory_unserializable)
  next
    case (Inr answer)
    then show ?thesis by simp
  qed
  show "db_answers w"
  proof (rule ccontr)
    assume n: "\<not> db_answers w"
    from ex obtain answer where "claude_api E (rq_text req) = Inr answer" ..
    then have p: "fst (process_text E (rq_text req) w) = Inr (strip answer)"
      by (simp add: process_text_ok)
    from n have "\<not> db_answers (before_save E ec (rq_text req) w)"
      by (simp add: before_save_frame)
    from save_memory_refused [OF this]
    obtain e where "fst (save_memory E (rq_session_id req) (rq_user_id req) (rq_text req)
             (Inr (strip answer)) (rq_source req)
             (embedding_result E ec (rq_text req) w) (before_save E ec (rq_text req) w)) = Inl e"
      by blast
    with assms p show False
      by (simp add: smart_copy_steps split: prod.splits)
  qed
qed


section \<open>The task queue: counting workers and tasks\<close>

lemma count_update:
  "i < length xs \<Longrightarrow>
     length (filter P (xs[i := y])) + (if P (xs ! i) then 1 else 0)
       = length (filter P xs) + (if P y then 1 else 0)"
proof (induction xs arbitrary: i)
  case Nil
  then show ?case by simp
next
  case (Cons x xs)
  then show ?case by (cases i) auto
qed

lemma getters_set_pc:
  "i < length (workers q) \<Longrightarrow>
     getters (set_pc i p q) + (if waits (pc (workers q ! i)) then 1 else 0)
       = getters q + (if waits p then 1 else 0)"
  using count_update [of i "workers q" "\<lambda>wk. waits (pc wk)" "(workers q ! i)\<lparr>pc := p\<rparr>"]
  by (simp add: getters_def set_pc_def)

lemma runners_set_pc:
  "i < length (workers q) \<Longrightarrow>
     runners (set_pc i p q) + (if busy (pc (workers q ! i)) then 1 else 0)
       = runners q + (if busy p then 1 else 0)"
  using count_update [of i "workers q" "\<lambda>wk. busy (pc wk)" "(workers q ! i)\<lparr>pc := p\<rparr>"]
  by (simp add: runners_def set_pc_def)

lemma set_pc_fields [simp]:
  "queue (set_pc i p q) = queue q"
  "unfinished_tasks (set_pc i p q) = unfinished_tasks q"
  "is_running (set_pc i p q) = is_running q"
  "stopping (set_pc i p q) = stopping q"
  "outside (set_pc i p q) = outside q"
  "logged (set_pc i p q) = logged q"
  by (simp_all add: set_pc_def)

lemma log_msg_fields [simp]:
  "queue (log_msg l m q) = queue q"
  "unfinished_tasks (log_msg l m q) = unfinished_tasks q"
  "is_running (log_msg l m q) = is_running q"
  "stopping (log_msg l m q) = stopping q"
  "outside (log_msg l m q) = outside q"
  "workers (log_msg l m q) = workers q"
  "logged (log_msg l m q) = logged q @ [(l, m)]"
  "getters (log_msg l m q) = getters q"
  "runners (log_msg l m q) = runners q"
  by (simp_all add: log_msg_def getters_def runners_def)

lemma set_pc_log_msg: "set_pc i p (log_msg l m q) = log_msg l m (set_pc i p q)"
  by (simp add: set_pc_def log_msg_def)

lemma counts_cong:
  "workers q' = workers q \<Longrightarrow> getters q' = getters q"
  "workers q' = workers q \<Longrightarrow> runners q' = runners q"
  by (simp_all add: getters_def runners_def)

lemma task_done_fields [simp]:
  "queue (task_done i q) = queue q"
  "is_running (task_done i q) = is_running q"
  "outside (task_done i q) = outside q"
  "workers (task_done i q) = workers q"
  "getters (task_done i q) = getters q"
  "runners (task_done i q) = runners q"
  by (simp_all add: task_done_def log_msg_def getters_def runners_def)

lemma task_done_many:
  "2 \<le> unfinished_tasks q \<Longrightarrow> unfinished_tasks (task_done i q) = unfinished_tasks q - 1"
  "2 \<le> unfinished_tasks q \<Longrightarrow> stopping (task_done i q) = stopping q"
  by (simp_all add: task_done_def)

lemma stuck_worker_step:
  assumes "stuck q"
  shows "stuck (worker_step i q)"
proof (cases "i < length (workers q)")
  case False
  with assms show ?thesis by (simp add: worker_step_def)
next
  case True
  from assms have s: "stopping q = S_join False" and r: "\<not> is_running q"
    and g: "getters q < length (queue q)"
    and u: "length (queue q) + runners q \<le> unfinished_tasks q"
    by (simp_all add: stuck_def)
  note gs = getters_set_pc [OF True]
  note rs = runners_set_pc [OF True]
  show ?thesis
  proof (cases "pc (workers q ! i)")
    case W_done
    with assms True show ?thesis by (simp add: worker_step_def)
  next
    case W_new
    from gs [of W_done] rs [of W_done] W_new
    have "getters (set_pc i W_done q) = getters q" "runners (set_pc i W_done q) = runners q"
      by simp_all
    with s r g u True W_new show ?thesis
      by (simp add: worker_step_def stuck_def loop_test_def set_pc_log_msg)
  next
    case W_get
    from gs [of W_done] rs [of W_done] W_get
    have d: "getters (set_pc i W_done q) + 1 = getters q" "runners (set_pc i W_done q) = runners q"
      by simp_all
    from g obtain t ts where q: "queue q = t # ts" by (cases "queue q") simp_all
    from gs [of "W_run t"] rs [of "W_run t"] W_get
    have c: "getters (set_pc i (W_run t) q) + 1 = getters q"
      "runners (set_pc i (W_run t) q) = runners q + 1"
      by simp_all
    have c': "getters (set_pc i (W_run t) (q\<lparr>queue := ts\<rparr>)) = getters (set_pc i (W_run t) q)"
      "runners (set_pc i (W_run t) (q\<lparr>queue := ts\<rparr>)) = runners (set_pc i (W_run t) q)"
      by (simp_all add: getters_def runners_def set_pc_def)
    show ?thesis
    proof (cases "cancel_requested (workers q ! i)")
      case True
      with s r g u \<open>i < length (workers q)\<close> W_get d show ?thesis
        by (simp add: worker_step_def stuck_def cancelled_def)
    next
      case False
      with s r g u \<open>i < length (workers q)\<close> W_get q c c' show ?thesis
        by (simp add: worker_step_def stuck_def set_pc_log_msg)
    qed
  next
    case (W_run t)
    have fin: "stuck (set_pc i W_done q1)"
      if w: "workers q1 = workers q" and "queue q1 = queue q" and "is_running q1 = is_running q"
        and "stopping q1 = stopping q" and "unfinished_tasks q1 + 1 = unfinished_tasks q"
      for q1 :: "'a BackgroundTaskQueue"
    proof -
      from w True have i1: "i < length (workers q1)" by simp
      from getters_set_pc [OF i1, of W_done] runners_set_pc [OF i1, of W_done] W_run w
      have "getters (set_pc i W_done q1) = getters q" "runners (set_pc i W_done q1) + 1 = runners q"
        by (simp_all add: counts_cong [OF w])
      with that s r g u show ?thesis by (simp add: stuck_def)
    qed
    from rs [of W_done] W_run have "1 \<le> runners q" by simp
    with g u have two: "2 \<le> unfinished_tasks q" by simp
    have lg: "stuck (log_msg l m q')" if "stuck q'" for l m and q' :: "'a BackgroundTaskQueue"
      using that by (simp add: stuck_def)
    from two have nz: "unfinished_tasks q \<noteq> 0" by simp
    show ?thesis
    proof (cases "cancel_requested (workers q ! i)")
      case True
      have "stuck (set_pc i W_done (task_done i q))"
        using two by (intro fin) (simp_all add: task_done_many)
      with True \<open>i < length (workers q)\<close> W_run nz show ?thesis
        by (simp add: worker_step_def unwind_def cancelled_def lg)
    next
      case False
      obtain res w' where f: "func t (outside q) = (res, w')" by (cases "func t (outside q)")
      have a: "stuck (set_pc i W_done (task_done i (log_msg l m (q\<lparr>outside := w'\<rparr>))))" for l m
        using two by (intro fin) (simp_all add: task_done_many)
      have b: "stuck (set_pc i W_done (task_done i (q\<lparr>outside := w'\<rparr>)))"
        using two by (intro fin) (simp_all add: task_done_many)
      show ?thesis
      proof (cases res)
        case (Inr u)
        with False r \<open>i < length (workers q)\<close> W_run f a show ?thesis
          by (simp add: worker_step_def loop_test_def lg)
      next
        case (Inl x)
        show ?thesis
        proof (cases x)
          case (Exc e)
          with Inl False r \<open>i < length (workers q)\<close> W_run f a show ?thesis
            by (simp add: worker_step_def loop_test_def lg)
        next
          case CancelledError
          with Inl False \<open>i < length (workers q)\<close> W_run f b nz show ?thesis
            by (simp add: worker_step_def unwind_def cancelled_def lg)
        next
          case (BaseExc name)
          with Inl False \<open>i < length (workers q)\<close> W_run f b nz show ?thesis
            by (simp add: worker_step_def unwind_def)
        qed
      qed
    qed
  qed
qed

lemma stuck_step: "stuck q \<Longrightarrow> stuck (step ev q)"
proof (cases ev)
  case (WorkerRuns i)
  then show "stuck q \<Longrightarrow> ?thesis" by (simp add: stuck_worker_step)
next
  case StopRuns
  then show "stuck q \<Longrightarrow> ?thesis" by (simp add: stuck_def stop_step_def)
next
  case (Enqueues uuid f)
  then show "stuck q \<Longrightarrow> ?thesis"
    by (simp add: stuck_def enqueue_def getters_def runners_def log_msg_def)
qed

lemma stuck_run: "stuck q \<Longrightarrow> stuck (run evs q)"
  by (induction evs arbitrary: q) (simp_all add: stuck_step)

lemma stuck_shutdown_with_backlog: "stuck shutdown_with_backlog"
  by (simp add: shutdown_with_backlog_def stuck_def start_def BackgroundTaskQueue_init_def
        worker_step_def stop_step_def enqueue_def loop_test_def set_pc_def log_msg_def
        getters_def runners_def upt_rec)


lemma join_wakes_at_zero:
  assumes "stopping q = S_join False" and "stopping (step ev q) \<noteq> S_join False"
  shows "stopping (step ev q) = S_join True \<and> unfinished_tasks (step ev q) = 0"
proof (cases ev)
  case (WorkerRuns i)
  have td: "stopping (task_done i q') = S_join True \<and> unfinished_tasks (task_done i q') = 0"
    if "stopping q' = S_join False" and "stopping (task_done i q') \<noteq> S_join False"
    for q' :: "'a BackgroundTaskQueue"
    using that by (auto simp: task_done_def log_msg_def split: if_splits)
  show ?thesis
  proof (cases "i < length (workers q)")
    case False
    with assms WorkerRuns show ?thesis by (simp add: worker_step_def)
  next
    case True
    show ?thesis
    proof (cases "pc (workers q ! i)")
      case W_new
      with assms WorkerRuns True show ?thesis
        by (simp add: worker_step_def loop_test_def split: if_splits)
    next
      case W_get
      with assms WorkerRuns True show ?thesis
        by (simp add: worker_step_def loop_test_def cancelled_def split: if_splits list.splits)
    next
      case (W_run t)
      obtain res w' where f: "func t (outside q) = (res, w')" by (cases "func t (outside q)")
      have uw: "stopping (unwind i h q') = S_join True \<and> unfinished_tasks (unwind i h q') = 0"
        if "stopping q' = S_join False" and "stopping (unwind i h q') \<noteq> S_join False"
          and "\<And>q''. stopping (h i q'') = stopping q''"
          and "\<And>q''. unfinished_tasks (h i q'') = unfinished_tasks q''"
        for h and q' :: "'a BackgroundTaskQueue"
        using that
        by (auto simp: unwind_def loop_test_def task_done_def log_msg_def set_pc_def
              split: if_splits)
      have hc: "stopping (cancelled i q'') = stopping q''"
        "unfinished_tasks (cancelled i q'') = unfinished_tasks q''"
        for q'' :: "'a BackgroundTaskQueue"
        by (simp_all add: cancelled_def)
      have hd: "stopping (set_pc i W_done q'') = stopping q''"
        "unfinished_tasks (set_pc i W_done q'') = unfinished_tasks q''"
        for q'' :: "'a BackgroundTaskQueue"
        by simp_all
      show ?thesis
      proof (cases "cancel_requested (workers q ! i)")
        case True
        with assms WorkerRuns \<open>i < length (workers q)\<close> W_run
          uw [of q cancelled, OF _ _ hc]
        show ?thesis by (simp add: worker_step_def)
      next
        case False
        show ?thesis
        proof (cases res)
          case (Inr u)
          with False assms WorkerRuns \<open>i < length (workers q)\<close> W_run f
            td [of "log_msg INFO (WorkerCompleted (worker_id (workers q ! i)) (task_id t))
                      (q\<lparr>outside := w'\<rparr>)"]
          show ?thesis
            by (simp add: worker_step_def loop_test_def split: if_splits)
        next
          case (Inl x)
          show ?thesis
          proof (cases x)
            case (Exc e)
            with Inl False assms WorkerRuns \<open>i < length (workers q)\<close> W_run f
              td [of "log_msg ERROR (WorkerTaskFailed (worker_id (workers q ! i)) (task_id t) e)
                        (q\<lparr>outside := w'\<rparr>)"]
            show ?thesis
              by (simp add: worker_step_def loop_test_def split: if_splits)
          next
            case CancelledError
            with Inl False assms WorkerRuns \<open>i < length (workers q)\<close> W_run f
              uw [of "q\<lparr>outside := w'\<rparr>" cancelled, OF _ _ hc]
            show ?thesis by (simp add: worker_step_def)
          next
            case (BaseExc name)
            with Inl False assms WorkerRuns \<open>i < length (workers q)\<close> W_run f
              uw [of "q\<lparr>outside := w'\<rparr>" "\<lambda>i. set_pc i W_done", OF _ _ hd]
            show ?thesis by (simp add: worker_step_def)
          qed
        qed
      qed
    next
      case W_done
      with assms WorkerRuns True show ?thesis by (simp add: worker_step_def)
    qed
  qed
next
  case StopRuns
  with assms show ?thesis by (simp add: stop_step_def)
next
  case (Enqueues uuid f)
  with assms show ?thesis by (simp add: enqueue_def log_msg_def)
qed

lemma stop_returns_with_two_tasks:
  "stopping (run [WorkerRuns 0, WorkerRuns 1, WorkerRuns 0, WorkerRuns 1, StopRuns, StopRuns]
               shutdown_with_two_tasks) = S_returned"
  by (simp add: shutdown_with_two_tasks_def start_def BackgroundTaskQueue_init_def
        worker_step_def stop_step_def enqueue_def loop_test_def set_pc_def log_msg_def
        task_done_def cancel_workers_def is_done_def noop_def unwind_def cancelled_def upt_rec)

lemma task_done_positive:
  "0 < unfinished_tasks q \<Longrightarrow> unfinished_tasks (task_done i q) = unfinished_tasks q - 1"
  "0 < unfinished_tasks q \<Longrightarrow> logged (task_done i q) = logged q"
  by (auto simp: task_done_def)

lemma set_pc_workers:
  "i < length (workers q) \<Longrightarrow>
     workers (set_pc i p q) = (workers q)[i := (workers q ! i)\<lparr>pc := p\<rparr>]"
  by (simp add: set_pc_def)

lemma worker_claims:
  assumes "i < length (workers q)" and "pc (workers q ! i) = W_get"
    and "\<not> cancel_requested (workers q ! i)" and "queue q = t # ts"
  shows "worker_step i q =
           set_pc i (W_run t)
             (log_msg INFO (WorkerProcessing (worker_id (workers q ! i)) (task_id t))
                (q\<lparr>queue := ts\<rparr>))"
  using assms by (simp add: worker_step_def)

lemma worker_finishes:
  assumes "i < length (workers q)" and "pc (workers q ! i) = W_run t"
    and "\<not> cancel_requested (workers q ! i)"
    and "func t (outside q) = (res, w')" and "catchable res"
  shows "\<exists>l m. worker_step i q = loop_test i (task_done i (log_msg l m (q\<lparr>outside := w'\<rparr>)))"
proof (cases res)
  case (Inr u)
  with assms have "worker_step i q =
      loop_test i (task_done i
        (log_msg INFO (WorkerCompleted (worker_id (workers q ! i)) (task_id t))
           (q\<lparr>outside := w'\<rparr>)))"
    by (simp add: worker_step_def)
  then show ?thesis by blast
next
  case (Inl x)
  with assms obtain e where "x = Exc e" by (cases x) simp_all
  with Inl assms have "worker_step i q =
      loop_test i (task_done i
        (log_msg ERROR (WorkerTaskFailed (worker_id (workers q ! i)) (task_id t) e)
           (q\<lparr>outside := w'\<rparr>)))"
    by (simp add: worker_step_def)
  then show ?thesis by blast
qed

lemma worker_done_stays:
  assumes "i < length (workers q)" and "pc (workers q ! i) = W_done"
  shows "run (replicate n (WorkerRuns i)) q = q"
  using assms by (induction n) (simp_all add: worker_step_def)

lemma two_steps:
  assumes i: "i < length (workers q)" and g: "pc (workers q ! i) = W_get"
    and c: "\<not> cancel_requested (workers q ! i)" and r: "is_running q"
    and q: "queue q = t # ts" and u: "0 < unfinished_tasks q"
    and k: "catchable (fst (func t (outside q)))"
  shows "i < length (workers (worker_step i (worker_step i q)))"
    and "pc (workers (worker_step i (worker_step i q)) ! i) = W_get"
    and "\<not> cancel_requested (workers (worker_step i (worker_step i q)) ! i)"
    and "is_running (worker_step i (worker_step i q))"
    and "queue (worker_step i (worker_step i q)) = ts"
    and "unfinished_tasks (worker_step i (worker_step i q)) = unfinished_tasks q - 1"
    and "outside (worker_step i (worker_step i q)) = snd (func t (outside q))"
proof -
  define q1 where "q1 = worker_step i q"
  have q1: "q1 = set_pc i (W_run t)
             (log_msg INFO (WorkerProcessing (worker_id (workers q ! i)) (task_id t))
                (q\<lparr>queue := ts\<rparr>))"
    unfolding q1_def by (rule worker_claims [OF i g c q])
  have a: "i < length (workers q1)" "pc (workers q1 ! i) = W_run t"
    "\<not> cancel_requested (workers q1 ! i)" "is_running q1" "queue q1 = ts"
    "unfinished_tasks q1 = unfinished_tasks q" "outside q1 = outside q"
    using i c r by (simp_all add: q1 set_pc_def)
  obtain res w' where f: "func t (outside q1) = (res, w')" by (cases "func t (outside q1)")
  from k f a(7) have "catchable res" by simp
  from worker_finishes [OF a(1) a(2) a(3) f this] obtain l m
    where "worker_step i q1 = loop_test i (task_done i (log_msg l m (q1\<lparr>outside := w'\<rparr>)))"
    by blast
  with a(4) have fin: "worker_step i q1 = set_pc i W_get (task_done i (log_msg l m (q1\<lparr>outside := w'\<rparr>)))"
    by (simp add: loop_test_def)
  have b: "unfinished_tasks (worker_step i q1) = unfinished_tasks q - 1"
    using u a(6) by (simp add: fin task_done_positive)
  show "i < length (workers (worker_step i (worker_step i q)))"
    unfolding q1_def [symmetric] using a(1) by (simp add: fin set_pc_def)
  show "pc (workers (worker_step i (worker_step i q)) ! i) = W_get"
    unfolding q1_def [symmetric] using a(1) by (simp add: fin set_pc_def)
  show "\<not> cancel_requested (workers (worker_step i (worker_step i q)) ! i)"
    unfolding q1_def [symmetric] using a(1) a(3) by (simp add: fin set_pc_def)
  show "is_running (worker_step i (worker_step i q))"
    unfolding q1_def [symmetric] using a(4) by (simp add: fin)
  show "queue (worker_step i (worker_step i q)) = ts"
    unfolding q1_def [symmetric] using a(5) by (simp add: fin)
  show "unfinished_tasks (worker_step i (worker_step i q)) = unfinished_tasks q - 1"
    unfolding q1_def [symmetric] by (rule b)
  show "outside (worker_step i (worker_step i q)) = snd (func t (outside q))"
    unfolding q1_def [symmetric] using f a(7) by (simp add: fin)
qed

lemma lone_worker_drains:
  assumes "queue q = ts" and "i < length (workers q)" and "pc (workers q ! i) = W_get"
    and "\<not> cancel_requested (workers q ! i)" and "is_running q"
    and "length ts \<le> unfinished_tasks q" and "all_catchable ts (outside q)"
  shows "queue (run (replicate (2 * length ts) (WorkerRuns i)) q) = []
       \<and> unfinished_tasks (run (replicate (2 * length ts) (WorkerRuns i)) q)
           = unfinished_tasks q - length ts
       \<and> pc (workers (run (replicate (2 * length ts) (WorkerRuns i)) q) ! i) = W_get
       \<and> is_running (run (replicate (2 * length ts) (WorkerRuns i)) q)
       \<and> outside (run (replicate (2 * length ts) (WorkerRuns i)) q)
           = foldl (\<lambda>w t. snd (func t w)) (outside q) ts"
  using assms
proof (induction ts arbitrary: q)
  case Nil
  then show ?case by simp
next
  case (Cons t ts)
  from Cons.prems have u: "0 < unfinished_tasks q" by simp
  from Cons.prems(7) have k: "catchable (fst (func t (outside q)))"
    and ks: "all_catchable ts (snd (func t (outside q)))" by simp_all
  note s = two_steps [OF Cons.prems(2) Cons.prems(3) Cons.prems(4) Cons.prems(5) Cons.prems(1) u k]
  have le: "length ts \<le> unfinished_tasks (worker_step i (worker_step i q))"
    using Cons.prems(6) by (simp add: s(6))
  from ks have ks': "all_catchable ts (outside (worker_step i (worker_step i q)))"
    by (simp add: s(7))
  from Cons.IH [OF s(5) s(1) s(2) s(3) s(4) le ks']
  show ?case
    using Cons.prems(6) by (simp add: s(6) s(7))
qed


section \<open>The description cache\<close>

text \<open>
  Claim C1 says that \<^verbatim>\<open>set_session_description\<close> stores the description with no time to
  live, so that it is still readable a day later. The code stores it with the default time
  to live of \<^verbatim>\<open>RedisCache.set\<close>: with a connected cache and an answering server, a
  non-empty description written at some instant is read back during the next 3600 seconds
  and is a miss from then on, with no invalidation in between.
\<close>

theorem description_cache_lives_one_hour:
  fixes w :: "'j world"
  assumes "connected c" and "redis_faults w = []" and "description \<noteq> []"
  shows "fst (get_session_description c sid
               (advance_clock d (snd (set_session_description c sid description w)))) =
         (if d < 3600 then Inr (Some description) else Inr None)"
  using assms
  by (simp add: set_session_description_live get_session_description_def advance_clock_def
        RedisCache_get_live redis_lookup_def)

theorem description_cache_lives_one_hour_witness:
  "connected live_cache \<and> redis_faults (fresh_world :: int list world) = []
   \<and> ''Notes on the cache rollout'' \<noteq> []
   \<and> fst (get_session_description live_cache ''s1''
            (advance_clock 86400
               (snd (set_session_description live_cache ''s1'' ''Notes on the cache rollout''
                       (fresh_world :: int list world))))) = Inr None"
  using description_cache_lives_one_hour [of live_cache "fresh_world :: int list world"
          "''Notes on the cache rollout''" "''s1''" 86400]
  by (simp add: connected_live_cache fresh_world_def)

section \<open>Graceful degradation of the key-value store\<close>

text \<open>
  Claim C5: when the connection failed at startup (the ping of \<^verbatim>\<open>__init__\<close> raised), or
  when the command an operation sends raises a connection error or a timeout, \<^verbatim>\<open>get\<close>
  returns \<^verbatim>\<open>None\<close> and \<^verbatim>\<open>set\<close>, \<^verbatim>\<open>delete\<close> and \<^verbatim>\<open>delete_pattern\<close> return \<^verbatim>\<open>False\<close>; no
  exception leaves the operation. For \<^verbatim>\<open>delete_pattern\<close> this also holds when its first
  command is answered with keys and the second one, the deletion, raises.
\<close>

theorem kv_store_best_effort:
  fixes w w0 w2 :: "'j world"
  assumes "(c = fst (RedisCache_init host port db w0) \<and> (\<exists>e fs. redis_faults w0 = Some e # fs))
           \<or> (\<exists>e fs. redis_faults w = Some e # fs)"
  shows "fst (RedisCache_get c k w) = Inr None
       \<and> fst (RedisCache_set c k v ttl w) = Inr False
       \<and> fst (RedisCache_delete c k w) = Inr False
       \<and> fst (RedisCache_delete_pattern c pat w) = Inr False
       \<and> ((\<exists>e fs. redis_faults w2 = None # Some e # fs) \<and> fst (redis_keys pat w2) \<noteq> Inr []
            \<longrightarrow> fst (RedisCache_delete_pattern c2 pat w2) = Inr False)"
proof -
  have first: "fst (RedisCache_get c k w) = Inr None
       \<and> fst (RedisCache_set c k v ttl w) = Inr False
       \<and> fst (RedisCache_delete c k w) = Inr False
       \<and> fst (RedisCache_delete_pattern c pat w) = Inr False"
    using assms
  proof (elim disjE conjE exE)
    fix e fs
    assume "c = fst (RedisCache_init host port db w0)" and "redis_faults w0 = Some e # fs"
    then have "\<not> connected c" by (simp add: RedisCache_init_down)
    then show ?thesis by (simp add: RedisCache_off)
  next
    fix e fs
    assume "redis_faults w = Some e # fs"
    then show ?thesis by (simp add: RedisCache_fault)
  qed
  have second: "(\<exists>e fs. redis_faults w2 = None # Some e # fs) \<and> fst (redis_keys pat w2) \<noteq> Inr []
            \<longrightarrow> fst (RedisCache_delete_pattern c2 pat w2) = Inr False"
    by (auto simp: RedisCache_delete_pattern_second)
  from first second show ?thesis by simp
qed

theorem kv_store_best_effort_witness:
  "redis_faults (down_world :: int list world) = [Some (ConnectionError ''Connection refused'')]
   \<and> redis_faults (flaky_world :: int list world)
       = [None, Some (TimeoutError ''Timeout reading from socket'')]
   \<and> fst (redis_keys ''session:abc:*'' (flaky_world :: int list world)) = Inr [''session:abc:memories'']
   \<and> fst (RedisCache_get (fst (RedisCache_init ''localhost'' 6379 0 (down_world :: int list world)))
            ''session:abc'' (snd (RedisCache_init ''localhost'' 6379 0 (down_world :: int list world))))
       = Inr None
   \<and> fst (RedisCache_set (fst (RedisCache_init ''localhost'' 6379 0 (down_world :: int list world)))
            ''session:abc'' ''{}'' 3600
            (snd (RedisCache_init ''localhost'' 6379 0 (down_world :: int list world))))
       = Inr False
   \<and> fst (RedisCache_delete_pattern live_cache ''session:abc:*'' (flaky_world :: int list world))
       = Inr False"
proof -
  have d: "redis_faults (down_world :: int list world) = [Some (ConnectionError ''Connection refused'')]"
    by (simp add: down_world_def fresh_world_def)
  have f: "redis_faults (flaky_world :: int list world)
             = [None, Some (TimeoutError ''Timeout reading from socket'')]"
    by (simp add: flaky_world_def fresh_world_def)
  have ks: "fst (redis_keys ''session:abc:*'' (flaky_world :: int list world))
              = Inr [''session:abc:memories'']"
    by (simp add: redis_keys_def redis_send_def redis_lookup_def flaky_world_def fresh_world_def)
  have a: "(fst (RedisCache_init ''localhost'' 6379 0 (down_world :: int list world))
              = fst (RedisCache_init ''localhost'' 6379 0 (down_world :: int list world))
            \<and> (\<exists>e fs. redis_faults (down_world :: int list world) = Some e # fs))
           \<or> (\<exists>e fs. redis_faults
                 (snd (RedisCache_init ''localhost'' 6379 0 (down_world :: int list world)))
                   = Some e # fs)"
    using d by simp
  note t = kv_store_best_effort
             [where c = "fst (RedisCache_init ''localhost'' 6379 0 (down_world :: int list world))"
                and host = "''localhost''" and port = 6379 and db = 0
                and ?w0.0 = "down_world :: int list world"
                and w = "snd (RedisCache_init ''localhost'' 6379 0 (down_world :: int list world))"
                and k = "''session:abc''" and v = "''{}''" and ttl = 3600
                and pat = "''session:abc:*''" and ?w2.0 = "flaky_world :: int list world"
                and ?c2.0 = live_cache]
  show ?thesis
    using t [OF a] d f ks by simp
qed

section \<open>Invalidation of a whole session\<close>




section \<open>The embedding cache\<close>



section \<open>Empty values and misses\<close>

text \<open>
  Claim C10, as amended: \<^verbatim>\<open>RedisCache.get\<close> reports a key whose stored value is the empty
  string as absent, and so does \<^verbatim>\<open>EmbeddingCache.get_embedding\<close> when the stored text is
  empty. A stored empty list is another matter: its text is \<^verbatim>\<open>[]\<close>, which is not empty,
  and \<^verbatim>\<open>get_embedding\<close> returns the list it parses from it, false in Python or not. It is
  the caller \<^verbatim>\<open>create_embedding\<close> that treats a false vector as a miss and calls the
  provider.
\<close>

theorem empty_values_and_misses:
  fixes w w' :: "'j world"
  shows "(redis_lookup w k = Some [] \<longrightarrow> fst (RedisCache_get c k w) = Inr None)
       \<and> (redis_lookup w (embedding_key E t0) = Some []
            \<longrightarrow> fst (get_embedding E c t0 w) = Inr None)
       \<and> (connected c' \<and> redis_faults w' = []
            \<and> redis_lookup w' (embedding_key E (clip t)) = Some (json_dumps E v)
            \<and> json_dumps E v \<noteq> [] \<and> json_loads E (json_dumps E v) = Inr v
            \<longrightarrow> fst (get_embedding E c' (clip t) w') = Inr (Some v)
                \<and> (if truthy E v
                    then filter is_embed_call (trace (snd (create_embedding E (Some c') t w')))
                           = filter is_embed_call (trace w')
                    else filter is_embed_call (trace (snd (create_embedding E (Some c') t w')))
                           = filter is_embed_call (trace w') @ [EmbedCall (clip t)]))"
proof (intro conjI impI)
  assume "redis_lookup w k = Some []"
  then show "fst (RedisCache_get c k w) = Inr None" by (rule RedisCache_get_empty)
next
  assume "redis_lookup w (embedding_key E t0) = Some []"
  then show "fst (get_embedding E c t0 w) = Inr None" by (rule get_embedding_empty)
next
  assume a: "connected c' \<and> redis_faults w' = []
            \<and> redis_lookup w' (embedding_key E (clip t)) = Some (json_dumps E v)
            \<and> json_dumps E v \<noteq> [] \<and> json_loads E (json_dumps E v) = Inr v"
  then show "fst (get_embedding E c' (clip t) w') = Inr (Some v)"
    by (simp add: get_embedding_live)
next
  assume a: "connected c' \<and> redis_faults w' = []
            \<and> redis_lookup w' (embedding_key E (clip t)) = Some (json_dumps E v)
            \<and> json_dumps E v \<noteq> [] \<and> json_loads E (json_dumps E v) = Inr v"
  then have g: "get_embedding E c' (clip t) w' =
             (Inr (Some v), w'\<lparr>trace := trace w' @ [Redis (GET (embedding_key E (clip t)))]\<rparr>)"
    by (simp add: get_embedding_live)
  show "if truthy E v
        then filter is_embed_call (trace (snd (create_embedding E (Some c') t w')))
               = filter is_embed_call (trace w')
        else filter is_embed_call (trace (snd (create_embedding E (Some c') t w')))
               = filter is_embed_call (trace w') @ [EmbedCall (clip t)]"
  proof (cases "truthy E v")
    case True
    then show ?thesis
      unfolding create_embedding_def clip_def [symmetric] Let_def
      by (simp add: g py_bool_def)
  next
    case False
    have "filter is_embed_call
            (trace (snd (generate_embedding E (Some c') (clip t)
               (w'\<lparr>trace := trace w' @ [Redis (GET (embedding_key E (clip t)))]\<rparr>))))
          = filter is_embed_call (trace w') @ [EmbedCall (clip t)]"
      by (simp add: generate_embedding_trace)
    with False show ?thesis
      unfolding create_embedding_def clip_def [symmetric] Let_def
      by (simp add: g py_bool_def)
  qed
qed

theorem empty_values_and_misses_witness:
  "redis_lookup stale_world ''session:s1:description'' = Some []
   \<and> redis_lookup stale_world (embedding_key sample_env ''meeting notes'') = Some []
   \<and> connected live_cache \<and> redis_faults stale_world = []
   \<and> redis_lookup stale_world (embedding_key sample_env (clip ''hello''))
       = Some (json_dumps sample_env [])
   \<and> json_dumps sample_env [] \<noteq> []
   \<and> json_loads sample_env (json_dumps sample_env []) = Inr []
   \<and> \<not> truthy sample_env []
   \<and> fst (RedisCache_get live_cache ''session:s1:description'' stale_world) = Inr None
   \<and> fst (get_embedding sample_env live_cache ''meeting notes'' stale_world) = Inr None
   \<and> fst (get_embedding sample_env live_cache (clip ''hello'') stale_world) = Inr (Some [])
   \<and> filter is_embed_call
        (trace (snd (create_embedding sample_env (Some live_cache) ''hello'' stale_world)))
       = filter is_embed_call (trace stale_world) @ [EmbedCall (clip ''hello'')]"
proof -
  have cl: "clip ''hello'' = ''hello''" by (simp add: clip_def max_chars_def)
  have h1: "redis_lookup stale_world ''session:s1:description'' = Some []"
    by (simp add: stale_world_def fresh_world_def redis_lookup_def)
  have h2: "redis_lookup stale_world (embedding_key sample_env ''meeting notes'') = Some []"
    by (simp add: stale_world_def fresh_world_def redis_lookup_def embedding_key_def
          sample_env_def sample_sha256hex_def)
  have h3: "connected live_cache" by (rule connected_live_cache)
  have h4: "redis_faults stale_world = []" by (simp add: stale_world_def fresh_world_def)
  have dm: "json_dumps sample_env [] = ''[]''" by (simp add: sample_env_def ints_dumps_def)
  have h5: "redis_lookup stale_world (embedding_key sample_env (clip ''hello''))
              = Some (json_dumps sample_env [])"
    by (simp add: dm cl)
       (simp add: stale_world_def fresh_world_def redis_lookup_def embedding_key_def
          sample_env_def sample_sha256hex_def)
  have h6: "json_dumps sample_env [] \<noteq> []" by (simp add: dm)
  have h7: "json_loads sample_env (json_dumps sample_env []) = Inr []"
    by (simp add: dm) (simp add: sample_env_def ints_loads_def trim_def json_space_def)
  have h8: "\<not> truthy sample_env []" by (simp add: sample_env_def)
  note r = empty_values_and_misses
             [where w = stale_world and k = "''session:s1:description''" and c = live_cache
                and E = sample_env and ?t0.0 = "''meeting notes''" and c' = live_cache
                and w' = stale_world and t = "''hello''" and v = "[]"]
  from r h1 have r1: "fst (RedisCache_get live_cache ''session:s1:description'' stale_world)
                        = Inr None"
    by blast
  from r h2 have r2: "fst (get_embedding sample_env live_cache ''meeting notes'' stale_world)
                        = Inr None"
    by blast
  from r h3 h4 h5 h6 h7
  have r34: "fst (get_embedding sample_env live_cache (clip ''hello'') stale_world) = Inr (Some [])
       \<and> (if truthy sample_env []
           then filter is_embed_call
                  (trace (snd (create_embedding sample_env (Some live_cache) ''hello'' stale_world)))
                  = filter is_embed_call (trace stale_world)
           else filter is_embed_call
                  (trace (snd (create_embedding sample_env (Some live_cache) ''hello'' stale_world)))
                  = filter is_embed_call (trace stale_world) @ [EmbedCall (clip ''hello'')])"
    by blast
  then have r3: "fst (get_embedding sample_env live_cache (clip ''hello'') stale_world)
                   = Inr (Some [])"
    by (rule conjunct1)
  from r34 h8 have r4: "filter is_embed_call
        (trace (snd (create_embedding sample_env (Some live_cache) ''hello'' stale_world)))
       = filter is_embed_call (trace stale_world) @ [EmbedCall (clip ''hello'')]"
    by (simp only: if_False)
  show ?thesis
    by (intro conjI h1 h2 h3 h4 h5 h6 h7 h8 r1 r2 r3 r4)
qed

text \<open>
  Claim C10 as stated fails for the empty list: saved with \<^verbatim>\<open>save_embedding\<close> and read
  back with \<^verbatim>\<open>get_embedding\<close>, it comes back as the empty list, not as the miss
  \<^verbatim>\<open>None\<close>.
\<close>

theorem get_embedding_returns_stored_empty_list:
  "fst (get_embedding sample_env live_cache ''hello''
          (snd (save_embedding sample_env live_cache ''hello'' [] 86400
                  (fresh_world :: int list world)))) = Inr (Some [])"
proof -
  have f: "redis_faults (fresh_world :: int list world) = []" by (simp add: fresh_world_def)
  have dm: "json_dumps sample_env [] = ''[]''" by (simp add: sample_env_def ints_dumps_def)
  have ld: "json_loads sample_env ''[]'' = Inr []"
    by (simp add: sample_env_def ints_loads_def trim_def json_space_def)
  show ?thesis
    using f
    by (simp add: save_embedding_live [OF connected_live_cache f]
          get_embedding_live [OF connected_live_cache] redis_lookup_def dm ld)
qed

section \<open>The synchronous write path\<close>

text \<open>
  Claim C3: when the summarization call raises, \<^verbatim>\<open>smart_copy\<close> fails, no row is added to
  the datastore, no key is deleted from the cache, and the memories and description entries
  of the session are what they were. The exception object travels on as
  \<^verbatim>\<open>processed_text\<close> into \<^verbatim>\<open>save_memory\<close>, where the insert cannot serialise it; that
  failure is what stops the operation before the invalidations.
\<close>

theorem summarization_failure_is_fatal:
  fixes w :: "'j world"
  assumes "claude_api E (rq_text request) = Inl e"
  shows "fst (smart_copy E session_cache embedding_cache request w) =
           Inl (HTTPException 500
                  (''Smart copy failed: Failed to save memory: '' @
                   ''Object of type Exception is not JSON serializable''))
       \<and> rows (snd (smart_copy E session_cache embedding_cache request w)) = rows w
       \<and> filter is_del (trace (snd (smart_copy E session_cache embedding_cache request w)))
           = filter is_del (trace w)
       \<and> redis_lookup (snd (smart_copy E session_cache embedding_cache request w))
           (session_memories_key (rq_session_id request))
           = redis_lookup w (session_memories_key (rq_session_id request))
       \<and> redis_lookup (snd (smart_copy E session_cache embedding_cache request w))
           (session_description_key (rq_session_id request))
           = redis_lookup w (session_description_key (rq_session_id request))"
proof -
  define w1 where "w1 = w\<lparr>trace := trace w @ [ClaudeCall (rq_text request)]\<rparr>"
  obtain r1 w2 where ce: "create_embedding E embedding_cache (rq_text request) w1 = (r1, w2)"
    by (cases "create_embedding E embedding_cache (rq_text request) w1")
  define w3 where "w3 = log_embedding_failure r1 w2"
  have g: "gather_results E embedding_cache (rq_text request) w =
             ((Inl (Exception (''Claude API error: '' @ str_exc e)), r1), w2)"
    using assms ce by (simp add: gather_results_def process_text_fail w1_def)
  from create_embedding_frame [of E embedding_cache "rq_text request" w1] ce
  have w2: "rows w2 = rows w" "filter is_del (trace w2) = filter is_del (trace w)"
    by (simp_all add: w1_def)
  have lk: "redis_lookup w2 k = redis_lookup w k"
    if "k \<noteq> embedding_key E (clip (rq_text request))" for k
    using create_embedding_other_key [OF that, of embedding_cache w1] ce by (simp add: w1_def)
  have w3: "rows w3 = rows w" "filter is_del (trace w3) = filter is_del (trace w)"
    using w2 by (simp_all add: w3_def log_embedding_failure_frame)
  have lk3: "redis_lookup w3 k = redis_lookup w k"
    if "k \<noteq> embedding_key E (clip (rq_text request))" for k
    using lk [OF that] by (simp add: w3_def log_embedding_failure_frame)
  show ?thesis
    using w3 lk3 [OF session_keys_not_embedding_keys(1)] lk3 [OF session_keys_not_embedding_keys(2)]
    by (simp add: smart_copy_def g save_memory_unserializable w3_def [symmetric]
          smart_copy_failed_def)
qed

theorem summarization_failure_is_fatal_witness:
  "claude_api overloaded_env (rq_text sample_request) = Inl (Exception ''overloaded'')
   \<and> fst (smart_copy overloaded_env live_cache (Some live_cache) sample_request warm_world) =
           Inl (HTTPException 500
                  (''Smart copy failed: Failed to save memory: '' @
                   ''Object of type Exception is not JSON serializable''))
   \<and> rows (snd (smart_copy overloaded_env live_cache (Some live_cache) sample_request warm_world))
       = rows warm_world
   \<and> redis_lookup
         (snd (smart_copy overloaded_env live_cache (Some live_cache) sample_request warm_world))
         (session_memories_key (rq_session_id sample_request))
       = redis_lookup warm_world (session_memories_key (rq_session_id sample_request))"
proof -
  have h: "claude_api overloaded_env (rq_text sample_request) = Inl (Exception ''overloaded'')"
    by (simp add: overloaded_env_def)
  note r = summarization_failure_is_fatal
             [OF h, where session_cache = live_cache and embedding_cache = "Some live_cache"
                and w = warm_world]
  from r have r1: "fst (smart_copy overloaded_env live_cache (Some live_cache) sample_request
                          warm_world) =
           Inl (HTTPException 500
                  (''Smart copy failed: Failed to save memory: '' @
                   ''Object of type Exception is not JSON serializable''))"
    by (elim conjE)
  from r have r2: "rows (snd (smart_copy overloaded_env live_cache (Some live_cache)
                                sample_request warm_world)) = rows warm_world"
    by (elim conjE)
  from r have r3: "redis_lookup
         (snd (smart_copy overloaded_env live_cache (Some live_cache) sample_request warm_world))
         (session_memories_key (rq_session_id sample_request))
       = redis_lookup warm_world (session_memories_key (rq_session_id sample_request))"
    by (elim conjE)
  show ?thesis by (intro conjI h r1 r2 r3)
qed

text \<open>
  Claim C6: when the embedding call raises and the summarization call returns, and the
  datastore answers the insert, \<^verbatim>\<open>smart_copy\<close> returns the response \<^verbatim>\<open>saved\<close>, the row it
  adds has no embedding, and the failure is logged as a warning. This holds whatever the state
  of the cache.
\<close>

theorem embedding_failure_is_not_fatal:
  fixes w :: "'j world"
  assumes "claude_api E (rq_text request) = Inr answer"
    and "fst (create_embedding E embedding_cache (rq_text request)
                (snd (process_text E (rq_text request) w))) = Inl err"
    and "db_answers w"
  shows "fst (smart_copy E session_cache embedding_cache request w) =
           Inr \<lparr>rs_status = ''saved'', rs_memory_id = new_id E (length (rows w)),
                 rs_original_length = length (rq_text request),
                 rs_processed_length = length (strip answer),
                 rs_processed_text = strip answer\<rparr>
       \<and> rows (snd (smart_copy E session_cache embedding_cache request w)) =
           rows w @ [\<lparr>r_id = new_id E (length (rows w)), r_session_id = rq_session_id request,
                      r_user_id = rq_user_id request, r_original_text = rq_text request,
                      r_processed_text = strip answer, r_source = rq_source request,
                      r_embedding = None\<rparr>]
       \<and> Log WARNING (''Failed to generate embedding: '' @ str_exc err)
           \<in> set (trace (snd (smart_copy E session_cache embedding_cache request w)))"
proof -
  have er: "embedding_result E embedding_cache (rq_text request) w = None"
    using assms(2) by (simp add: embedding_result_def)
  have lg: "Log WARNING (''Failed to generate embedding: '' @ str_exc err)
              \<in> set (trace (before_save E embedding_cache (rq_text request) w))"
    using assms(2) by (simp add: before_save_def log_embedding_failure_def)
  note sc = smart_copy_succeeds [OF assms(1) assms(3), of session_cache embedding_cache]
  define w4 where "w4 = (before_save E embedding_cache (rq_text request) w)
             \<lparr>rows := rows w @
                [\<lparr>r_id = new_id E (length (rows w)), r_session_id = rq_session_id request,
                  r_user_id = rq_user_id request, r_original_text = rq_text request,
                  r_processed_text = strip answer, r_source = rq_source request,
                  r_embedding = None\<rparr>],
              db_faults := tl (db_faults w),
              trace := trace (before_save E embedding_cache (rq_text request) w) @
                [DbInsert \<lparr>d_session_id = rq_session_id request, d_user_id = rq_user_id request,
                   d_original_text = rq_text request, d_processed_text = Inr (strip answer),
                   d_source = rq_source request, d_embedding = None\<rparr>]\<rparr>"
  define w5 where "w5 = snd (RedisCache_delete session_cache
                               (session_memories_key (rq_session_id request)) w4)"
  define w6 where "w6 = snd (RedisCache_delete session_cache
                               (session_description_key (rq_session_id request)) w5)"
  have fin: "snd (smart_copy E session_cache embedding_cache request w) = w6"
    by (simp add: sc er py_bool_def w4_def w5_def w6_def)
  have r: "rows w6 = rows w4" by (simp add: w6_def w5_def RedisCache_delete_frame)
  obtain t5 where t5: "trace w5 = trace w4 @ t5"
    using RedisCache_delete_frame(4) [of session_cache _ w4] unfolding w5_def by blast
  obtain t6 where t6: "trace w6 = trace w5 @ t6"
    using RedisCache_delete_frame(4) [of session_cache _ w5] unfolding w6_def by blast
  have "Log WARNING (''Failed to generate embedding: '' @ str_exc err) \<in> set (trace w6)"
    using lg by (simp add: t6 t5 w4_def)
  with r show ?thesis
    by (simp add: fin) (simp add: sc w4_def)
qed

theorem embedding_failure_is_not_fatal_witness:
  "claude_api unembeddable_env (rq_text sample_request) = Inr '' Summary: meeting notes ''
   \<and> fst (create_embedding unembeddable_env (Some live_cache) (rq_text sample_request)
            (snd (process_text unembeddable_env (rq_text sample_request) warm_world)))
       = Inl (Exception ''Failed to generate embedding: rate limited'')
   \<and> db_answers warm_world
   \<and> fst (smart_copy unembeddable_env live_cache (Some live_cache) sample_request warm_world) =
           Inr \<lparr>rs_status = ''saved'',
                 rs_memory_id = new_id unembeddable_env (length (rows warm_world)),
                 rs_original_length = length (rq_text sample_request),
                 rs_processed_length = length (strip '' Summary: meeting notes ''),
                 rs_processed_text = strip '' Summary: meeting notes ''\<rparr>
   \<and> rows (snd (smart_copy unembeddable_env live_cache (Some live_cache) sample_request
                   warm_world)) =
           rows warm_world @
             [\<lparr>r_id = new_id unembeddable_env (length (rows warm_world)),
               r_session_id = rq_session_id sample_request,
               r_user_id = rq_user_id sample_request,
               r_original_text = rq_text sample_request,
               r_processed_text = strip '' Summary: meeting notes '',
               r_source = rq_source sample_request, r_embedding = None\<rparr>]"
proof -
  have h1: "claude_api unembeddable_env (rq_text sample_request) = Inr '' Summary: meeting notes ''"
    by (simp add: unembeddable_env_def sample_env_def sample_request_def)
  have h2: "fst (create_embedding unembeddable_env (Some live_cache) (rq_text sample_request)
            (snd (process_text unembeddable_env (rq_text sample_request) warm_world)))
       = Inl (Exception ''Failed to generate embedding: rate limited'')"
    by (simp add: create_embedding_def get_embedding_def generate_embedding_def
          call_embed_api_def process_text_def embedding_failure_def py_bool_def
          RedisCache_get_def redis_get_def redis_send_def redis_lookup_def embedding_key_def
          max_chars_def Let_def unembeddable_env_def sample_env_def sample_request_def
          sample_sha256hex_def warm_world_def fresh_world_def live_cache_def)
  have h3: "db_answers warm_world"
    by (simp add: db_answers_def warm_world_def fresh_world_def)
  note r = embedding_failure_is_not_fatal
             [OF h1 h2 h3, where session_cache = live_cache]
  from r have r1: "fst (smart_copy unembeddable_env live_cache (Some live_cache) sample_request
                          warm_world) =
           Inr \<lparr>rs_status = ''saved'',
                 rs_memory_id = new_id unembeddable_env (length (rows warm_world)),
                 rs_original_length = length (rq_text sample_request),
                 rs_processed_length = length (strip '' Summary: meeting notes ''),
                 rs_processed_text = strip '' Summary: meeting notes ''\<rparr>"
    by (elim conjE)
  from r have r2: "rows (snd (smart_copy unembeddable_env live_cache (Some live_cache)
                                sample_request warm_world)) =
           rows warm_world @
             [\<lparr>r_id = new_id unembeddable_env (length (rows warm_world)),
               r_session_id = rq_session_id sample_request,
               r_user_id = rq_user_id sample_request,
               r_original_text = rq_text sample_request,
               r_processed_text = strip '' Summary: meeting notes '',
               r_source = rq_source sample_request, r_embedding = None\<rparr>]"
    by (elim conjE)
  show ?thesis by (intro conjI h1 h2 h3 r1 r2)
qed

text \<open>
  Claim C4, as amended: for every successful \<^verbatim>\<open>smart_copy\<close> with a connected cache whose
  server answers its commands, the row is added to the datastore, then the memories key of
  the session is deleted, then its description key, in that order and before the call
  returns; neither entry is left, and the readers of memories and description miss right
  after the call, whatever the entries held before.
\<close>

theorem successful_write_invalidates:
  fixes w :: "'j world"
  assumes "fst (smart_copy E session_cache embedding_cache request w) = Inr response"
    and "connected session_cache" and "redis_faults w = []"
  shows "(\<exists>emb. rows (snd (smart_copy E session_cache embedding_cache request w)) =
           rows w @ [\<lparr>r_id = rs_memory_id response, r_session_id = rq_session_id request,
                      r_user_id = rq_user_id request, r_original_text = rq_text request,
                      r_processed_text = rs_processed_text response,
                      r_source = rq_source request, r_embedding = emb\<rparr>])
       \<and> (\<exists>tr data. trace (snd (smart_copy E session_cache embedding_cache request w)) =
             tr @ [DbInsert data,
                   Redis (DEL [session_memories_key (rq_session_id request)]),
                   Redis (DEL [session_description_key (rq_session_id request)])])
       \<and> redis_lookup (snd (smart_copy E session_cache embedding_cache request w))
             (session_memories_key (rq_session_id request)) = None
       \<and> redis_lookup (snd (smart_copy E session_cache embedding_cache request w))
             (session_description_key (rq_session_id request)) = None
       \<and> fst (get_session_memories E session_cache (rq_session_id request)
                (snd (smart_copy E session_cache embedding_cache request w))) = Inr None
       \<and> fst (get_session_description session_cache (rq_session_id request)
                (snd (smart_copy E session_cache embedding_cache request w))) = Inr None"
proof -
  from smart_copy_success_needs [OF assms(1)]
  obtain answer where a: "claude_api E (rq_text request) = Inr answer" and d: "db_answers w"
    by blast
  define w3 where "w3 = before_save E embedding_cache (rq_text request) w"
  define emb where "emb = (if py_bool E (embedding_result E embedding_cache (rq_text request) w)
                           then embedding_result E embedding_cache (rq_text request) w else None)"
  define row where "row = \<lparr>r_id = new_id E (length (rows w)), r_session_id = rq_session_id request,
                  r_user_id = rq_user_id request, r_original_text = rq_text request,
                  r_processed_text = strip answer, r_source = rq_source request,
                  r_embedding = emb\<rparr>"
  define data where "data = \<lparr>d_session_id = rq_session_id request, d_user_id = rq_user_id request,
                   d_original_text = rq_text request, d_processed_text = Inr (strip answer),
                   d_source = rq_source request, d_embedding = emb\<rparr>"
  define w4 where "w4 = w3\<lparr>rows := rows w @ [row], db_faults := tl (db_faults w),
                           trace := trace w3 @ [DbInsert data]\<rparr>"
  define km where "km = session_memories_key (rq_session_id request)"
  define kd where "kd = session_description_key (rq_session_id request)"
  define w5 where "w5 = w4\<lparr>trace := trace w4 @ [Redis (DEL [km])],
                           entries := filter (\<lambda>p. fst p \<notin> set [km]) (entries w4)\<rparr>"
  define w6 where "w6 = w5\<lparr>trace := trace w5 @ [Redis (DEL [kd])],
                           entries := filter (\<lambda>p. fst p \<notin> set [kd]) (entries w5)\<rparr>"
  note sc = smart_copy_succeeds [OF a d, of session_cache embedding_cache,
              folded emb_def, folded row_def data_def, folded w3_def, folded w4_def,
              folded km_def kd_def]
  have f3: "redis_faults w3 = []"
    using assms(3) by (simp add: w3_def before_save_frame)
  then have f4: "redis_faults w4 = []" by (simp add: w4_def)
  have d5: "RedisCache_delete session_cache km w4 = (Inr True, w5)"
    by (simp add: RedisCache_delete_live [OF assms(2) f4] w5_def)
  have f5: "redis_faults w5 = []" using f4 by (simp add: w5_def)
  have d6: "RedisCache_delete session_cache kd w5 = (Inr True, w6)"
    by (simp add: RedisCache_delete_live [OF assms(2) f5] w6_def)
  have f6: "redis_faults w6 = []" using f5 by (simp add: w6_def)
  have res: "smart_copy E session_cache embedding_cache request w =
               (Inr \<lparr>rs_status = ''saved'', rs_memory_id = new_id E (length (rows w)),
                     rs_original_length = length (rq_text request),
                     rs_processed_length = length (strip answer),
                     rs_processed_text = strip answer\<rparr>, w6)"
    by (simp add: sc d5 d6)
  with assms(1) have resp: "rs_memory_id response = new_id E (length (rows w))"
    "rs_processed_text response = strip answer" by auto
  have rows6: "rows w6 = rows w @ [row]" by (simp add: w6_def w5_def w4_def)
  have tr6: "trace w6 = trace w3 @ [DbInsert data, Redis (DEL [km]), Redis (DEL [kd])]"
    by (simp add: w6_def w5_def w4_def)
  have "map_of (filter (\<lambda>x. fst x \<noteq> km \<and> fst x \<noteq> kd) es) km = None" for es :: "(string \<times> string \<times> nat) list"
    by (induction es) auto
  then have lm: "redis_lookup w6 km = None"
    by (simp add: w6_def w5_def redis_lookup_def)
  have ld: "redis_lookup w6 kd = None"
    by (simp add: w6_def redis_lookup_def map_of_filter_neq)
  have gm: "fst (get_session_memories E session_cache (rq_session_id request) w6) = Inr None"
    using lm by (simp add: get_session_memories_live [OF assms(2) f6] km_def)
  have gd: "fst (get_session_description session_cache (rq_session_id request) w6) = Inr None"
    using ld by (simp add: get_session_description_live [OF assms(2) f6] kd_def)
  have fin: "snd (smart_copy E session_cache embedding_cache request w) = w6"
    by (simp add: res)
  show ?thesis
    unfolding fin km_def [symmetric] kd_def [symmetric]
    using rows6 tr6 lm ld gm gd resp
    by (auto simp: row_def km_def kd_def)
qed

theorem successful_write_invalidates_witness:
  "fst (smart_copy sample_env live_cache (Some live_cache) sample_request warm_world) =
     Inr \<lparr>rs_status = ''saved'', rs_memory_id = new_id sample_env (length (rows warm_world)),
           rs_original_length = length (rq_text sample_request),
           rs_processed_length = length (strip '' Summary: meeting notes ''),
           rs_processed_text = strip '' Summary: meeting notes ''\<rparr>
   \<and> connected live_cache \<and> redis_faults warm_world = []
   \<and> redis_lookup warm_world (session_memories_key ''s1'') = Some ''[2, 3]''
   \<and> redis_lookup warm_world (session_description_key ''s1'') = Some ''Notes on the cache rollout''
   \<and> redis_lookup
         (snd (smart_copy sample_env live_cache (Some live_cache) sample_request warm_world))
         (session_memories_key (rq_session_id sample_request)) = None
   \<and> redis_lookup
         (snd (smart_copy sample_env live_cache (Some live_cache) sample_request warm_world))
         (session_description_key (rq_session_id sample_request)) = None
   \<and> fst (get_session_memories sample_env live_cache (rq_session_id sample_request)
            (snd (smart_copy sample_env live_cache (Some live_cache) sample_request warm_world)))
       = Inr None
   \<and> fst (get_session_description live_cache (rq_session_id sample_request)
            (snd (smart_copy sample_env live_cache (Some live_cache) sample_request warm_world)))
       = Inr None"
proof -
  have a: "claude_api sample_env (rq_text sample_request) = Inr '' Summary: meeting notes ''"
    by (simp add: sample_env_def sample_request_def)
  have d: "db_answers warm_world"
    by (simp add: db_answers_def warm_world_def fresh_world_def)
  have h1: "fst (smart_copy sample_env live_cache (Some live_cache) sample_request warm_world) =
     Inr \<lparr>rs_status = ''saved'', rs_memory_id = new_id sample_env (length (rows warm_world)),
           rs_original_length = length (rq_text sample_request),
           rs_processed_length = length (strip '' Summary: meeting notes ''),
           rs_processed_text = strip '' Summary: meeting notes ''\<rparr>"
    by (simp add: smart_copy_succeeds [OF a d])
  have h2: "connected live_cache" by (rule connected_live_cache)
  have h3: "redis_faults warm_world = []" by (simp add: warm_world_def fresh_world_def)
  have p1: "redis_lookup warm_world (session_memories_key ''s1'') = Some ''[2, 3]''"
    by (simp add: warm_world_def fresh_world_def redis_lookup_def session_memories_key_def)
  have p2: "redis_lookup warm_world (session_description_key ''s1'')
              = Some ''Notes on the cache rollout''"
    by (simp add: warm_world_def fresh_world_def redis_lookup_def session_description_key_def)
  note r = successful_write_invalidates [OF h1 h2 h3]
  from r have r1: "redis_lookup
         (snd (smart_copy sample_env live_cache (Some live_cache) sample_request warm_world))
         (session_memories_key (rq_session_id sample_request)) = None"
    by (elim conjE)
  from r have r2: "redis_lookup
         (snd (smart_copy sample_env live_cache (Some live_cache) sample_request warm_world))
         (session_description_key (rq_session_id sample_request)) = None"
    by (elim conjE)
  from r have r3: "fst (get_session_memories sample_env live_cache (rq_session_id sample_request)
            (snd (smart_copy sample_env live_cache (Some live_cache) sample_request warm_world)))
       = Inr None"
    by (elim conjE)
  from r have r4: "fst (get_session_description live_cache (rq_session_id sample_request)
            (snd (smart_copy sample_env live_cache (Some live_cache) sample_request warm_world)))
       = Inr None"
    by (elim conjE)
  show ?thesis by (intro conjI h1 h2 h3 p1 p2 r1 r2 r3 r4)
qed

text \<open>
  Claim C4 as stated, for every successful call, fails when the server does not answer a
  delete: here the fourth command of the call, the deletion of the description key, times
  out. \<^verbatim>\<open>RedisCache.delete\<close> returns \<^verbatim>\<open>False\<close>, \<^verbatim>\<open>smart_copy\<close> succeeds, and the description
  cached before the write is read after it.
\<close>

theorem successful_write_keeps_entry_on_timeout:
  "fst (smart_copy sample_env live_cache (Some live_cache) sample_request timeout_world)
       = Inr \<lparr>rs_status = ''saved'', rs_memory_id = ''mem-0'', rs_original_length = 13,
               rs_processed_length = 22, rs_processed_text = ''Summary: meeting notes''\<rparr>
   \<and> fst (get_session_description live_cache ''s1''
            (snd (smart_copy sample_env live_cache (Some live_cache) sample_request timeout_world)))
       = Inr (Some ''Notes on the cache rollout'')"
proof -
  have d0: "digits10 0 = ''0''" by code_simp
  show ?thesis
    by (simp add: smart_copy_def gather_results_def process_text_def create_embedding_def
          get_embedding_def generate_embedding_def call_embed_api_def save_embedding_def
          save_memory_def db_insert_def log_embedding_failure_def
          invalidate_session_memories_def invalidate_session_description_def
          get_session_description_def RedisCache_get_def RedisCache_set_def
          RedisCache_delete_def redis_get_def redis_setex_def redis_delete_def redis_send_def
          redis_lookup_def session_memories_key_def session_description_key_def
          embedding_key_def embedding_ttl_seconds_def max_chars_def py_bool_def
          sample_env_def sample_request_def sample_sha256hex_def timeout_world_def
          warm_world_def fresh_world_def live_cache_def strip_def py_isspace_def Let_def d0)
qed

section \<open>Stopping the task queue\<close>

text \<open>
  Claim C2 says that \<^verbatim>\<open>stop()\<close> blocks until the queued tasks have been taken and
  completed, then cancels the workers and returns. \<^verbatim>\<open>stop\<close> clears \<^verbatim>\<open>is_running\<close> before it
  awaits \<^verbatim>\<open>queue.join()\<close>, and the loop of a worker is \<^verbatim>\<open>while self.is_running\<close>: a
  worker takes at most the task it is already waiting for and leaves its loop. With two
  waiting workers and three queued tasks, whatever the event loop runs next and for however
  long, \<^verbatim>\<open>stop\<close> is still waiting in the join, a task is still queued and the count of
  unfinished tasks is not zero: \<^verbatim>\<open>stop\<close> never returns.
\<close>

theorem stop_never_returns_with_backlog:
  "stopping (run schedule shutdown_with_backlog) = S_join False
   \<and> queue (run schedule shutdown_with_backlog) \<noteq> []
   \<and> 0 < unfinished_tasks (run schedule shutdown_with_backlog)"
  using stuck_run [OF stuck_shutdown_with_backlog, of schedule]
  by (auto simp: stuck_def)

section \<open>A task that raises\<close>




end
